theory Spec2Isabelle
  imports Main
begin

section \<open>Python values\<close>

text \<open>
  A Python \<open>str\<close> is a sequence of Unicode code points; a code point is modelled by its
  number. \<open>py\<close> turns an ASCII literal of the source into such a sequence.
\<close>

type_synonym pystr = "nat list"

definition py :: "string \<Rightarrow> pystr" where
  "py s = map of_char s"

text \<open>
  \<open>str.isspace\<close> on one code point, as \<open>str.strip()\<close> with no argument uses it: the
  ASCII white space (tab to carriage return, the four separators 0x1C to 0x1F, the
  space) and the Unicode code points of bidirectional type WS, B or S or of category Zs.
\<close>

definition isspace :: "nat \<Rightarrow> bool" where
  "isspace c \<longleftrightarrow>
     (0x09 \<le> c \<and> c \<le> 0x0D) \<or> (0x1C \<le> c \<and> c \<le> 0x20) \<or> c = 0x85 \<or> c = 0xA0 \<or>
     c = 0x1680 \<or> (0x2000 \<le> c \<and> c \<le> 0x200A) \<or> c = 0x2028 \<or> c = 0x2029 \<or>
     c = 0x202F \<or> c = 0x205F \<or> c = 0x3000"

definition lstrip :: "pystr \<Rightarrow> pystr" where
  "lstrip s = dropWhile isspace s"

definition rstrip :: "pystr \<Rightarrow> pystr" where
  "rstrip s = rev (dropWhile isspace (rev s))"

definition strip :: "pystr \<Rightarrow> pystr" where
  "strip s = rstrip (lstrip s)"

definition startswith :: "pystr \<Rightarrow> pystr \<Rightarrow> bool" where
  "startswith s prefix \<longleftrightarrow> take (length prefix) s = prefix"

definition endswith :: "pystr \<Rightarrow> pystr \<Rightarrow> bool" where
  "endswith s suffix \<longleftrightarrow>
     length suffix \<le> length s \<and> drop (length s - length suffix) s = suffix"

text \<open>\<open>os.path.join\<close> of two components, on POSIX.\<close>

definition os_path_join :: "pystr \<Rightarrow> pystr \<Rightarrow> pystr" where
  "os_path_join a b =
     (if startswith b (py ''/'') then b
      else if a = [] \<or> endswith a (py ''/'') then a @ b
      else a @ py ''/'' @ b)"

text \<open>
  The values the program builds and serialises: strings, lists and dictionaries with
  string keys. A dictionary keeps its items in insertion order, as Python's does.
\<close>

datatype pyval = Str pystr | List "pyval list" | Dict "(pystr \<times> pyval) list"

section \<open>The world outside the program\<close>

datatype os_error = FileNotFoundError | NotADirectoryError | IsADirectoryError | PermissionError

datatype py_error =
    OSError os_error
  | UnicodeDecodeError
  | OpenAIError
  | IndexError
  | AttributeError

text \<open>The part of a chat completion the program reads: \<open>response.choices[0].message.content\<close>.\<close>

record chat_message =
  content :: "pystr option"

record choice =
  message :: chat_message

record chat_completion =
  choices :: "choice list"

text \<open>
  What the program asks of its environment. Every call either returns or raises:
  \<^item> \<open>new_client\<close>: \<open>openai.OpenAI()\<close>, which raises when no credentials are configured;
  \<^item> \<open>os_listdir\<close>: the names in a directory, in the order the file system yields them;
  \<^item> \<open>read_bytes\<close>: opening a file for reading and reading it to its end, which gives
    the bytes the file holds;
  \<^item> \<open>create\<close>: \<open>client.chat.completions.create\<close>; the answer may depend on the requests
    sent before (first argument) and on the request itself;
  \<^item> \<open>open_write\<close>: \<open>open(path, "w", encoding="utf-8")\<close>.
  All reads of a run come before its only write, so the file system read is the one
  before the run. Paths and line ends are those of POSIX.
\<close>

type_synonym bytes = "char list"

record env =
  new_client :: "py_error option"
  os_listdir :: "pystr \<Rightarrow> os_error + pystr list"
  read_bytes :: "pystr \<Rightarrow> os_error + bytes"
  create :: "pyval list \<Rightarrow> pyval \<Rightarrow> py_error + chat_completion"
  open_write :: "pystr \<Rightarrow> os_error option"

text \<open>
  The strict UTF-8 decoder of Python, on the numbers of the bytes: the shortest form
  only, no surrogate, nothing above 0x10FFFF. \<open>None\<close> is \<open>UnicodeDecodeError\<close>.
\<close>

definition continuation :: "nat \<Rightarrow> bool" where
  "continuation b \<longleftrightarrow> 0x80 \<le> b \<and> b \<le> 0xBF"

fun utf8_decode :: "nat list \<Rightarrow> pystr option" where
  "utf8_decode [] = Some []"
| "utf8_decode (b # bs) =
     (if b < 0x80 then map_option ((#) b) (utf8_decode bs)
      else if 0xC2 \<le> b \<and> b \<le> 0xDF then
        (case bs of
           b1 # rest \<Rightarrow>
             if continuation b1
             then map_option ((#) ((b - 0xC0) * 64 + (b1 - 0x80))) (utf8_decode rest)
             else None
         | _ \<Rightarrow> None)
      else if 0xE0 \<le> b \<and> b \<le> 0xEF then
        (case bs of
           b1 # b2 # rest \<Rightarrow>
             if continuation b1 \<and> continuation b2 \<and>
                (if b = 0xE0 then 0xA0 \<le> b1 else if b = 0xED then b1 \<le> 0x9F else True)
             then map_option ((#) ((b - 0xE0) * 4096 + (b1 - 0x80) * 64 + (b2 - 0x80)))
                    (utf8_decode rest)
             else None
         | _ \<Rightarrow> None)
      else if 0xF0 \<le> b \<and> b \<le> 0xF4 then
        (case bs of
           b1 # b2 # b3 # rest \<Rightarrow>
             if continuation b1 \<and> continuation b2 \<and> continuation b3 \<and>
                (if b = 0xF0 then 0x90 \<le> b1 else if b = 0xF4 then b1 \<le> 0x8F else True)
             then map_option
                    ((#) ((b - 0xF0) * 262144 + (b1 - 0x80) * 4096 + (b2 - 0x80) * 64 + (b3 - 0x80)))
                    (utf8_decode rest)
             else None
         | _ \<Rightarrow> None)
      else None)"

text \<open>
  Reading in text mode with the default \<open>newline=None\<close>: in the decoded text every
  carriage return followed by a line feed, and every other carriage return, becomes one
  line feed.
\<close>

fun universal_newlines :: "pystr \<Rightarrow> pystr" where
  "universal_newlines [] = []"
| "universal_newlines (c # cs) =
     (if c = 0x0D then
        (case cs of
           [] \<Rightarrow> [0x0A]
         | d # rest \<Rightarrow>
             if d = 0x0A then 0x0A # universal_newlines rest
             else 0x0A # universal_newlines (d # rest))
      else c # universal_newlines cs)"

text \<open>
  \<open>open(path, "r", encoding="utf-8")\<close> followed by \<open>read()\<close>: the bytes of the file,
  decoded, with the line ends translated.
\<close>

definition read_text :: "env \<Rightarrow> pystr \<Rightarrow> py_error + pystr" where
  "read_text e path =
     (case read_bytes e path of
        Inl err \<Rightarrow> Inl (OSError err)
      | Inr content_bytes \<Rightarrow>
          (case utf8_decode (map of_char content_bytes) of
             None \<Rightarrow> Inl UnicodeDecodeError
           | Some decoded_text \<Rightarrow> Inr (universal_newlines decoded_text)))"

text \<open>
  The effects of a run: the requests sent to the service, oldest first, and the files
  opened for writing, each with the text written to it.
\<close>

record state =
  requests :: "pyval list"
  files :: "pystr \<rightharpoonup> pystr"

section \<open>FineTuningDataPreprocessor\<close>

record preprocessor =
  persona :: pystr
  data_directory :: pystr

text \<open>The keyword arguments of the call in \<open>_generate_simulated_query\<close>.\<close>

definition query_request :: "pystr \<Rightarrow> pyval" where
  "query_request assistant_response =
     Dict [(py ''model'', Str (py ''gpt-4-1106-preview'')),
           (py ''messages'', List [
              Dict [(py ''role'', Str (py ''system'')),
                    (py ''content'', Str (py ''You are a query generator. Given a piece of text, craft a user query that might have resulted in that text as an output.''))],
              Dict [(py ''role'', Str (py ''user'')),
                    (py ''content'', Str assistant_response)]])]"

definition generate_simulated_query ::
  "env \<Rightarrow> pystr \<Rightarrow> state \<Rightarrow> (py_error + pystr) \<times> state" where
  "generate_simulated_query e assistant_response st =
     (let req = query_request assistant_response;
          st' = st\<lparr>requests := requests st @ [req]\<rparr>
      in case create e (requests st) req of
           Inl err \<Rightarrow> (Inl err, st')
         | Inr response \<Rightarrow>
             (case choices response of
                [] \<Rightarrow> (Inl IndexError, st')
              | c # _ \<Rightarrow>
                  (case content (message c) of
                     None \<Rightarrow> (Inl AttributeError, st')
                   | Some text \<Rightarrow> (Inr (strip text), st'))))"

definition process_text_file ::
  "env \<Rightarrow> preprocessor \<Rightarrow> pystr \<Rightarrow> state \<Rightarrow> (py_error + pyval) \<times> state" where
  "process_text_file e self file_path st =
     (case read_text e file_path of
        Inl err \<Rightarrow> (Inl err, st)
      | Inr assistant_response \<Rightarrow>
          (case generate_simulated_query e assistant_response st of
             (Inl err, st') \<Rightarrow> (Inl err, st')
           | (Inr simulated_query, st') \<Rightarrow>
               (Inr (Dict [(py ''messages'', List [
                       Dict [(py ''role'', Str (py ''system'')), (py ''content'', Str (persona self))],
                       Dict [(py ''role'', Str (py ''user'')), (py ''content'', Str simulated_query)],
                       Dict [(py ''role'', Str (py ''assistant'')), (py ''content'', Str assistant_response)]])]),
                st')))"

text \<open>
  The loop of \<open>generate_training_data\<close> over the names still to visit, with the list
  built so far.
\<close>

fun training_loop ::
  "env \<Rightarrow> preprocessor \<Rightarrow> pystr list \<Rightarrow> pyval list \<Rightarrow> state \<Rightarrow> (py_error + pyval list) \<times> state" where
  "training_loop e self [] training_data st = (Inr training_data, st)"
| "training_loop e self (filename # rest) training_data st =
     (if endswith filename (py ''.txt'') then
        (case process_text_file e self (os_path_join (data_directory self) filename) st of
           (Inl err, st') \<Rightarrow> (Inl err, st')
         | (Inr data_entry, st') \<Rightarrow> training_loop e self rest (training_data @ [data_entry]) st')
      else training_loop e self rest training_data st)"

definition generate_training_data ::
  "env \<Rightarrow> preprocessor \<Rightarrow> state \<Rightarrow> (py_error + pyval list) \<times> state" where
  "generate_training_data e self st =
     (case os_listdir e (data_directory self) of
        Inl err \<Rightarrow> (Inl (OSError err), st)
      | Inr names \<Rightarrow> training_loop e self names [] st)"

section \<open>Writing the data set\<close>

text \<open>
  \<open>json.dump\<close> with its default settings (\<open>ensure_ascii=True\<close>, separators \<open>", "\<close> and
  \<open>": "\<close>, no indentation) on the values above. A string is written between double
  quotes; the backslash, the double quote and the control characters with a short
  escape get it, printable ASCII stays, every other code point below 0x10000 becomes
  \<open>\uXXXX\<close> with four lower-case hexadecimal digits, and a code point from 0x10000 on
  becomes the two escapes of its surrogate pair.
\<close>

definition hexdigit :: "nat \<Rightarrow> nat" where
  "hexdigit d = (if d < 10 then 0x30 + d else 0x61 + (d - 10))"

definition hex4 :: "nat \<Rightarrow> pystr" where
  "hex4 n = [hexdigit (n div 4096 mod 16), hexdigit (n div 256 mod 16),
             hexdigit (n div 16 mod 16), hexdigit (n mod 16)]"

definition escape_char :: "nat \<Rightarrow> pystr" where
  "escape_char c =
     (if c = 0x5C then [0x5C, 0x5C]
      else if c = 0x22 then [0x5C, 0x22]
      else if c = 0x08 then 0x5C # py ''b''
      else if c = 0x0C then 0x5C # py ''f''
      else if c = 0x0A then 0x5C # py ''n''
      else if c = 0x0D then 0x5C # py ''r''
      else if c = 0x09 then 0x5C # py ''t''
      else if 0x20 \<le> c \<and> c \<le> 0x7E then [c]
      else if c < 0x10000 then 0x5C # py ''u'' @ hex4 c
      else (let n = c - 0x10000;
                s1 = 0xD800 + (n div 1024) mod 1024;
                s2 = 0xDC00 + n mod 1024
            in 0x5C # py ''u'' @ hex4 s1 @ 0x5C # py ''u'' @ hex4 s2))"

definition encode_basestring_ascii :: "pystr \<Rightarrow> pystr" where
  "encode_basestring_ascii s = 0x22 # concat (map escape_char s) @ [0x22]"

fun join :: "pystr \<Rightarrow> pystr list \<Rightarrow> pystr" where
  "join sep [] = []"
| "join sep [x] = x"
| "join sep (x # y # ys) = x @ sep @ join sep (y # ys)"

fun json_dumps :: "pyval \<Rightarrow> pystr" where
  "json_dumps (Str s) = encode_basestring_ascii s"
| "json_dumps (List xs) = py ''['' @ join (py '', '') (map json_dumps xs) @ py '']''"
| "json_dumps (Dict kvs) =
     py ''{'' @
     join (py '', '') (map (\<lambda>(k, v). encode_basestring_ascii k @ py '': '' @ json_dumps v) kvs) @
     py ''}''"

section \<open>main\<close>

record args =
  persona_arg :: pystr
  data_dir :: pystr
  output_file :: pystr

text \<open>
  \<open>main\<close> from the point where the command line has been parsed: its three required
  arguments are given. (The check of the version of the \<open>openai\<close> library runs when the
  module is loaded, before \<open>main\<close>.)

  The constructor stores its two arguments and creates the client.
\<close>

definition init :: "env \<Rightarrow> pystr \<Rightarrow> pystr \<Rightarrow> py_error + preprocessor" where
  "init e p d =
     (case new_client e of
        Some err \<Rightarrow> Inl err
      | None \<Rightarrow> Inr \<lparr>persona = p, data_directory = d\<rparr>)"

text \<open>
  The loop that writes the entries, on the text \<open>f\<close> written to the file so far. Opening
  the output file creates or empties it and may fail; the writes to the open file are
  taken to succeed.
\<close>

fun write_entries :: "pyval list \<Rightarrow> pystr \<Rightarrow> pystr" where
  "write_entries [] f = f"
| "write_entries (data_entry # rest) f = write_entries rest (f @ json_dumps data_entry @ [0x0A])"

definition main :: "env \<Rightarrow> args \<Rightarrow> state \<Rightarrow> (py_error + unit) \<times> state" where
  "main e a st =
     (case init e (persona_arg a) (data_dir a) of
        Inl err \<Rightarrow> (Inl err, st)
      | Inr preprocessor \<Rightarrow>
          (case generate_training_data e preprocessor st of
             (Inl err, st') \<Rightarrow> (Inl err, st')
           | (Inr training_data, st') \<Rightarrow>
               (case open_write e (output_file a) of
                  Some err \<Rightarrow> (Inl (OSError err), st')
                | None \<Rightarrow>
                    (Inr (),
                     st'\<lparr>files := (files st')(output_file a \<mapsto> write_entries training_data [])\<rparr>))))"

section \<open>Reading the output\<close>

text \<open>
  The lines of a text, as reading the file line by line yields them, without their
  terminating newline: \<open>cur\<close> is the line read so far.
\<close>

fun lines_from :: "pystr \<Rightarrow> pystr \<Rightarrow> pystr list" where
  "lines_from cur [] = (if cur = [] then [] else [cur])"
| "lines_from cur (c # cs) =
     (if c = 0x0A then cur # lines_from [] cs else lines_from (cur @ [c]) cs)"

definition file_lines :: "pystr \<Rightarrow> pystr list" where
  "file_lines text = lines_from [] text"

text \<open>The record of one file: persona, synthesised query, response text.\<close>

definition training_record :: "pystr \<Rightarrow> pystr \<Rightarrow> pystr \<Rightarrow> pyval" where
  "training_record p q r =
     Dict [(py ''messages'', List [
        Dict [(py ''role'', Str (py ''system'')), (py ''content'', Str p)],
        Dict [(py ''role'', Str (py ''user'')), (py ''content'', Str q)],
        Dict [(py ''role'', Str (py ''assistant'')), (py ''content'', Str r)]])]"

section \<open>Reading a line back\<close>

text \<open>
  \<open>json.loads\<close> with its default settings, on the JSON that \<open>json.dump\<close> writes for the
  values above: objects, arrays and strings. Numbers and the literals \<open>true\<close>, \<open>false\<close>
  and \<open>null\<close> are not modelled; where Python reads one of them the model gives up, as
  it does on text that is not JSON: the result \<open>None\<close> stands for every failure.

  White space is the space, the tab, the line feed and the carriage return.
\<close>

definition json_whitespace :: "nat \<Rightarrow> bool" where
  "json_whitespace c \<longleftrightarrow> c = 0x20 \<or> c = 0x09 \<or> c = 0x0A \<or> c = 0x0D"

definition skip_whitespace :: "pystr \<Rightarrow> pystr" where
  "skip_whitespace s = dropWhile json_whitespace s"

text \<open>
  The four hexadecimal digits of a \<open>\uXXXX\<close> escape, in either case, and the characters
  that may follow a backslash.
\<close>

definition unhex :: "nat \<Rightarrow> nat option" where
  "unhex c =
     (if 0x30 \<le> c \<and> c \<le> 0x39 then Some (c - 0x30)
      else if 0x61 \<le> c \<and> c \<le> 0x66 then Some (c - 0x61 + 10)
      else if 0x41 \<le> c \<and> c \<le> 0x46 then Some (c - 0x41 + 10)
      else None)"

definition decode_uXXXX :: "pystr \<Rightarrow> nat option" where
  "decode_uXXXX s =
     (case s of
        a # b # c # d # _ \<Rightarrow>
          (case (unhex a, unhex b, unhex c, unhex d) of
             (Some x, Some y, Some z, Some w) \<Rightarrow> Some (((x * 16 + y) * 16 + z) * 16 + w)
           | _ \<Rightarrow> None)
      | _ \<Rightarrow> None)"

definition backslash :: "nat \<Rightarrow> nat option" where
  "backslash esc =
     (if esc = 0x22 then Some 0x22
      else if esc = 0x5C then Some 0x5C
      else if esc = 0x2F then Some 0x2F
      else if esc = 0x62 then Some 0x08
      else if esc = 0x66 then Some 0x0C
      else if esc = 0x6E then Some 0x0A
      else if esc = 0x72 then Some 0x0D
      else if esc = 0x74 then Some 0x09
      else None)"

text \<open>
  \<open>scanstring\<close> reads a string from the character after its opening quote up to the
  closing quote and returns it with the text that follows. In the default strict mode a
  control character ends the parse. The escape of a high surrogate directly followed by
  the escape of a low surrogate is read as the one code point the pair encodes.
\<close>

definition append_char :: "nat \<Rightarrow> (pystr \<times> pystr) option \<Rightarrow> (pystr \<times> pystr) option" where
  "append_char c res = (case res of None \<Rightarrow> None | Some (chunks, rest) \<Rightarrow> Some (c # chunks, rest))"

fun scanstring :: "pystr \<Rightarrow> (pystr \<times> pystr) option" where
  "scanstring [] = None"
| "scanstring (c # cs) =
     (if c = 0x22 then Some ([], cs)
      else if c = 0x5C then
        (case cs of
           [] \<Rightarrow> None
         | esc # r \<Rightarrow>
             if esc = 0x75 then
               (case decode_uXXXX r of
                  None \<Rightarrow> None
                | Some uni \<Rightarrow>
                    if 0xD800 \<le> uni \<and> uni \<le> 0xDBFF \<and> take 2 (drop 4 r) = [0x5C, 0x75] then
                      (case decode_uXXXX (drop 6 r) of
                         None \<Rightarrow> None
                       | Some uni2 \<Rightarrow>
                           if 0xDC00 \<le> uni2 \<and> uni2 \<le> 0xDFFF
                           then append_char (0x10000 + (uni - 0xD800) * 1024 + (uni2 - 0xDC00))
                                  (scanstring (drop 10 r))
                           else append_char uni (scanstring (drop 4 r)))
                    else append_char uni (scanstring (drop 4 r)))
             else
               (case backslash esc of
                  None \<Rightarrow> None
                | Some ch \<Rightarrow> append_char ch (scanstring r)))
      else if c < 0x20 then None
      else append_char c (scanstring cs))"

text \<open>
  \<open>dict(pairs)\<close>: a key that comes again keeps its place and takes the new value.
\<close>

fun setitem :: "(pystr \<times> pyval) list \<Rightarrow> pystr \<Rightarrow> pyval \<Rightarrow> (pystr \<times> pyval) list" where
  "setitem [] k v = [(k, v)]"
| "setitem ((k', v') # d) k v = (if k' = k then (k', v) # d else (k', v') # setitem d k v)"

definition dict :: "(pystr \<times> pyval) list \<Rightarrow> (pystr \<times> pyval) list" where
  "dict pairs = foldl (\<lambda>d (k, v). setitem d k v) [] pairs"

text \<open>
  \<open>scan_once\<close> reads one value; \<open>JSONArray\<close> and \<open>JSONObject\<close> are the loops over the
  elements of an array and the members of an object, entered after the opening bracket
  and after the opening quote of the first key. The first argument bounds the number of
  nested calls; \<open>json_loads\<close> starts with more than the length of the text, and every
  call consumes a character.
\<close>

fun scan_once :: "nat \<Rightarrow> pystr \<Rightarrow> (pyval \<times> pystr) option"
  and JSONArray :: "nat \<Rightarrow> pystr \<Rightarrow> pyval list \<Rightarrow> (pyval \<times> pystr) option"
  and JSONObject :: "nat \<Rightarrow> pystr \<Rightarrow> (pystr \<times> pyval) list \<Rightarrow> (pyval \<times> pystr) option" where
  "scan_once 0 s = None"
| "scan_once (Suc n) [] = None"
| "scan_once (Suc n) (c # cs) =
     (if c = 0x22 then
        (case scanstring cs of None \<Rightarrow> None | Some (str, rest) \<Rightarrow> Some (Str str, rest))
      else if c = 0x7B then
        (case skip_whitespace cs of
           [] \<Rightarrow> None
         | nextchar # rest \<Rightarrow>
             if nextchar = 0x7D then Some (Dict [], rest)
             else if nextchar = 0x22 then JSONObject n rest []
             else None)
      else if c = 0x5B then
        (case skip_whitespace cs of
           [] \<Rightarrow> None
         | nextchar # rest \<Rightarrow>
             if nextchar = 0x5D then Some (List [], rest)
             else JSONArray n (nextchar # rest) [])
      else None)"
| "JSONArray 0 s values = None"
| "JSONArray (Suc n) s values =
     (case scan_once n s of
        None \<Rightarrow> None
      | Some (v, rest) \<Rightarrow>
          (case skip_whitespace rest of
             [] \<Rightarrow> None
           | nextchar # rest' \<Rightarrow>
               if nextchar = 0x5D then Some (List (values @ [v]), rest')
               else if nextchar \<noteq> 0x2C then None
               else JSONArray n (skip_whitespace rest') (values @ [v])))"
| "JSONObject 0 s pairs = None"
| "JSONObject (Suc n) s pairs =
     (case scanstring s of
        None \<Rightarrow> None
      | Some (key, rest) \<Rightarrow>
          (case skip_whitespace rest of
             [] \<Rightarrow> None
           | colon # rest1 \<Rightarrow>
               if colon \<noteq> 0x3A then None
               else
                 (case scan_once n (skip_whitespace rest1) of
                    None \<Rightarrow> None
                  | Some (v, rest2) \<Rightarrow>
                      (case skip_whitespace rest2 of
                         [] \<Rightarrow> None
                       | nextchar # rest3 \<Rightarrow>
                           if nextchar = 0x7D then Some (Dict (dict (pairs @ [(key, v)])), rest3)
                           else if nextchar \<noteq> 0x2C then None
                           else
                             (case skip_whitespace rest3 of
                                [] \<Rightarrow> None
                              | quote # rest4 \<Rightarrow>
                                  if quote = 0x22 then JSONObject n rest4 (pairs @ [(key, v)])
                                  else None)))))"

text \<open>The whole text is one value between optional white space.\<close>

definition json_loads :: "pystr \<Rightarrow> pyval option" where
  "json_loads s =
     (case scan_once (Suc (length s)) (skip_whitespace s) of
        None \<Rightarrow> None
      | Some (obj, rest) \<Rightarrow> if skip_whitespace rest = [] then Some obj else None)"

text \<open>
  What reading back does to a string: \<open>decoded s\<close> is \<open>s\<close> with every high surrogate
  that is directly followed by a low surrogate replaced, together with it, by the code
  point the two encode. A Python string of Unicode scalar values is left as it is.
  (\<open>code_point\<close> is the identity on the code points of Unicode, those below 0x110000.)
\<close>

definition high_surrogate :: "nat \<Rightarrow> bool" where
  "high_surrogate c \<longleftrightarrow> 0xD800 \<le> c \<and> c \<le> 0xDBFF"

definition low_surrogate :: "nat \<Rightarrow> bool" where
  "low_surrogate c \<longleftrightarrow> 0xDC00 \<le> c \<and> c \<le> 0xDFFF"

definition code_point :: "nat \<Rightarrow> nat" where
  "code_point c = (if c < 0x10000 then c else 0x10000 + (c - 0x10000) mod 0x100000)"

fun decoded :: "pystr \<Rightarrow> pystr" where
  "decoded [] = []"
| "decoded [c] = [code_point c]"
| "decoded (c # d # s) =
     (if high_surrogate c \<and> low_surrogate d
      then (0x10000 + (c - 0xD800) * 1024 + (d - 0xDC00)) # decoded s
      else code_point c # decoded (d # s))"

fun decoded_val :: "pyval \<Rightarrow> pyval" where
  "decoded_val (Str s) = Str (decoded s)"
| "decoded_val (List xs) = List (map decoded_val xs)"
| "decoded_val (Dict kvs) = Dict (map (\<lambda>(k, v). (decoded k, decoded_val v)) kvs)"

text \<open>The keys of every dictionary of a value are still distinct when read back.\<close>

fun distinct_keys :: "pyval \<Rightarrow> bool" where
  "distinct_keys (Str s) = True"
| "distinct_keys (List xs) = list_all distinct_keys xs"
| "distinct_keys (Dict kvs) =
     (distinct (map (\<lambda>(k, v). decoded k) kvs) \<and> list_all (\<lambda>(k, v). distinct_keys v) kvs)"

section \<open>Example runs\<close>

text \<open>
  A directory \<open>data\<close> that holds \<open>a.txt\<close> ("Hello world") and \<open>b.md\<close>, a service that
  always returns \<open>" What should I say? "\<close>, and the persona "You are Bob.".
\<close>

definition completion :: "pystr \<Rightarrow> chat_completion" where
  "completion reply = \<lparr>choices = [\<lparr>message = \<lparr>content = Some reply\<rparr>\<rparr>]\<rparr>"

definition demo_env :: env where
  "demo_env =
     \<lparr>new_client = None,
      os_listdir = (\<lambda>d. if d = py ''data'' then Inr [py ''a.txt'', py ''b.md'']
                        else Inl FileNotFoundError),
      read_bytes = (\<lambda>p. if p = py ''data/a.txt'' then Inr ''Hello world''
                        else if p = py ''data/b.md'' then Inr ''# notes''
                        else Inl FileNotFoundError),
      create = (\<lambda>h r. Inr (completion (py '' What should I say? ''))),
      open_write = (\<lambda>p. None)\<rparr>"

definition demo_args :: args where
  "demo_args =
     \<lparr>persona_arg = py ''You are Bob.'', data_dir = py ''data'', output_file = py ''out.jsonl''\<rparr>"

definition demo_self :: preprocessor where
  "demo_self = \<lparr>persona = py ''You are Bob.'', data_directory = py ''data''\<rparr>"

definition initial_state :: state where
  "initial_state = \<lparr>requests = [], files = Map.empty\<rparr>"

text \<open>The same, with a service that answers with white space only.\<close>

definition demo_env_blank :: env where
  "demo_env_blank = demo_env\<lparr>create := (\<lambda>h r. Inr (completion [0x20, 0x0A, 0x20]))\<rparr>"

text \<open>
  The same directory with two more entries: \<open>c.txt\<close>, a subdirectory, and \<open>d.txt\<close>, a
  readable file.
\<close>

definition demo_env_subdir :: env where
  "demo_env_subdir =
     demo_env\<lparr>
       os_listdir := (\<lambda>d. if d = py ''data''
                          then Inr [py ''a.txt'', py ''b.md'', py ''c.txt'', py ''d.txt'']
                          else Inl FileNotFoundError),
       read_bytes := (\<lambda>p. if p = py ''data/a.txt'' then Inr ''Hello world''
                          else if p = py ''data/b.md'' then Inr ''# notes''
                          else if p = py ''data/c.txt'' then Inl IsADirectoryError
                          else if p = py ''data/d.txt'' then Inr ''Bye''
                          else Inl FileNotFoundError)\<rparr>"

text \<open>The directory without \<open>b.md\<close>, and the directory with another \<open>b.md\<close>.\<close>

definition demo_env_txt_only :: env where
  "demo_env_txt_only =
     demo_env\<lparr>
       os_listdir := (\<lambda>d. if d = py ''data'' then Inr [py ''a.txt''] else Inl FileNotFoundError),
       read_bytes := (\<lambda>p. if p = py ''data/a.txt'' then Inr ''Hello world''
                          else Inl FileNotFoundError)\<rparr>"

definition demo_env_other_md :: env where
  "demo_env_other_md =
     demo_env\<lparr>
       read_bytes := (\<lambda>p. if p = py ''data/a.txt'' then Inr ''Hello world''
                          else if p = py ''data/b.md'' then Inr ''Hello world''
                          else Inl PermissionError)\<rparr>"

text \<open>
  The directory with an \<open>a.txt\<close> that holds an accented letter in UTF-8 and a line that
  ends with a carriage return and a line feed.
\<close>

definition demo_env_crlf :: env where
  "demo_env_crlf =
     demo_env\<lparr>
       read_bytes := (\<lambda>p. if p = py ''data/a.txt''
                          then Inr (''H'' @ [CHR 0xC3, CHR 0xA9] @ ''llo'' @ [CHR 0x0D, CHR 0x0A] @ ''world'')
                          else Inl FileNotFoundError)\<rparr>"

section \<open>Facts about \<open>strip\<close>\<close>

lemma rstrip_decomp: "t = rstrip t @ rev (takeWhile isspace (rev t))"
proof -
  have "rev (takeWhile isspace (rev t) @ dropWhile isspace (rev t)) = t"
    by (simp only: takeWhile_dropWhile_id rev_rev_ident)
  then show ?thesis
    by (simp only: rev_append rstrip_def)
qed

lemma strip_decomp:
  "\<exists>l r. s = l @ strip s @ r \<and> (\<forall>c\<in>set l. isspace c) \<and> (\<forall>c\<in>set r. isspace c)"
proof -
  let ?t = "lstrip s"
  let ?l = "takeWhile isspace s"
  let ?r = "rev (takeWhile isspace (rev ?t))"
  have 1: "s = ?l @ ?t" by (simp only: lstrip_def takeWhile_dropWhile_id)
  have 2: "?t = strip s @ ?r"
    unfolding strip_def by (rule rstrip_decomp)
  have 3: "\<forall>c\<in>set ?l. isspace c"
    by (blast dest: set_takeWhileD)
  have 4: "\<forall>c\<in>set ?r. isspace c"
    unfolding set_rev by (blast dest: set_takeWhileD)
  from 1 2 have "s = ?l @ strip s @ ?r"
    by (simp only:)
  with 3 4 show ?thesis by blast
qed

lemma strip_last: "strip s \<noteq> [] \<Longrightarrow> \<not> isspace (last (strip s))"
  unfolding strip_def rstrip_def
  apply (simp only: last_rev rev_is_Nil_conv)
  apply (erule hd_dropWhile)
  done

lemma strip_hd: 
  assumes "strip s \<noteq> []" shows "\<not> isspace (hd (strip s))"
proof -
  let ?t = "lstrip s"
  have t: "?t = strip s @ rev (takeWhile isspace (rev ?t))"
    unfolding strip_def by (rule rstrip_decomp)
  with assms have ne: "?t \<noteq> []" by (metis append_is_Nil_conv)
  from t assms have "hd ?t = hd (strip s)" by (metis hd_append2)
  moreover from ne have "\<not> isspace (hd ?t)"
    unfolding lstrip_def by (rule hd_dropWhile)
  ultimately show ?thesis by simp
qed

lemma strip_blank: "(\<forall>c\<in>set s. isspace c) \<Longrightarrow> strip s = []"
proof -
  assume "\<forall>c\<in>set s. isspace c"
  then have "lstrip s = []" unfolding lstrip_def by (simp only: dropWhile_eq_Nil_conv)
  then show ?thesis by (simp add: strip_def rstrip_def)
qed

section \<open>Facts about reading a file\<close>

lemma newlines_without_cr: "0x0D \<notin> set l \<Longrightarrow> universal_newlines (l @ r) = l @ universal_newlines r"
  by (induction l) (simp_all del: universal_newlines.simps(2) add: universal_newlines.simps(2) [of _ "_ @ _"])

lemma newlines_id: "0x0D \<notin> set s \<Longrightarrow> universal_newlines s = s"
  using newlines_without_cr [of s "[]"] by simp

section \<open>Facts about the program\<close>

lemma gsq_state:
  "generate_simulated_query e R st = (res, st') \<Longrightarrow>
   st' = st\<lparr>requests := requests st @ [query_request R]\<rparr>"
  by (auto simp: generate_simulated_query_def Let_def split: sum.splits list.splits option.splits)

lemma gsq_Inr:
  "generate_simulated_query e R st = (Inr q, st') \<longleftrightarrow>
   (\<exists>response c cs text.
      create e (requests st) (query_request R) = Inr response \<and> choices response = c # cs \<and>
      content (message c) = Some text \<and> q = strip text) \<and>
   st' = st\<lparr>requests := requests st @ [query_request R]\<rparr>"
  by (auto simp: generate_simulated_query_def Let_def split: sum.splits list.splits option.splits)

lemma ptf_Inr:
  "process_text_file e self p st = (Inr d, st') \<longleftrightarrow>
   (\<exists>R q. read_text e p = Inr R \<and> generate_simulated_query e R st = (Inr q, st') \<and>
      d = training_record (persona self) q R)"
  by (auto simp: process_text_file_def training_record_def split: sum.splits prod.splits)

lemma ptf_read_error:
  "read_text e p = Inl err \<Longrightarrow> process_text_file e self p st = (Inl err, st)"
  by (simp add: process_text_file_def)

lemma ptf_files: "process_text_file e self p st = (res, st') \<Longrightarrow> files st' = files st"
  by (auto simp: process_text_file_def split: sum.splits prod.splits dest!: gsq_state)

lemma ptf_cong:
  assumes "read_text e' p = read_text e p" and "create e' = create e"
  shows "process_text_file e' self p st = process_text_file e self p st"
  by (simp only: process_text_file_def generate_simulated_query_def assms)

lemma loop_files:
  "training_loop e self names acc st = (res, st') \<Longrightarrow> files st' = files st"
proof (induction names arbitrary: acc st)
  case Nil
  then show ?case by simp
next
  case (Cons f rest)
  show ?case
  proof (cases "endswith f (py ''.txt'')")
    case False
    with Cons show ?thesis by simp
  next
    case True
    obtain r st1 where p: "process_text_file e self (os_path_join (data_directory self) f) st = (r, st1)"
      by (cases "process_text_file e self (os_path_join (data_directory self) f) st")
    then have f1: "files st1 = files st" by (rule ptf_files)
    show ?thesis
    proof (cases r)
      case (Inl err)
      with Cons.prems True p f1 show ?thesis by simp
    next
      case (Inr d)
      with Cons.prems True p have "training_loop e self rest (acc @ [d]) st1 = (res, st')" by simp
      then have "files st' = files st1" by (rule Cons.IH)
      with f1 show ?thesis by simp
    qed
  qed
qed

lemma loop_append:
  "training_loop e self (xs @ ys) acc st =
   (case training_loop e self xs acc st of
      (Inl err, st') \<Rightarrow> (Inl err, st')
    | (Inr ds, st') \<Rightarrow> training_loop e self ys ds st')"
  by (induction xs arbitrary: acc st) (auto split: sum.splits prod.splits)

lemma loop_filter:
  "training_loop e self (filter (\<lambda>f. endswith f (py ''.txt'')) names) acc st =
   training_loop e self names acc st"
  by (induction names arbitrary: acc st) (auto split: sum.splits prod.splits)

lemma loop_cong:
  assumes c: "create e' = create e"
  shows "(\<forall>f\<in>set names. endswith f (py ''.txt'') \<longrightarrow>
      read_text e' (os_path_join (data_directory self) f) = read_text e (os_path_join (data_directory self) f)) \<Longrightarrow>
   training_loop e' self names acc st = training_loop e self names acc st"
proof (induction names arbitrary: acc st)
  case Nil
  show ?case by simp
next
  case (Cons f rest)
  from Cons.prems have "\<forall>f\<in>set rest. endswith f (py ''.txt'') \<longrightarrow>
      read_text e' (os_path_join (data_directory self) f) = read_text e (os_path_join (data_directory self) f)"
    by simp
  then have ih: "\<And>acc st. training_loop e' self rest acc st = training_loop e self rest acc st"
    by (rule Cons.IH)
  show ?case
  proof (cases "endswith f (py ''.txt'')")
    case False
    then show ?thesis by (simp add: ih)
  next
    case True
    with Cons.prems have "read_text e' (os_path_join (data_directory self) f) = read_text e (os_path_join (data_directory self) f)"
      by simp
    then have "process_text_file e' self (os_path_join (data_directory self) f) st =
       process_text_file e self (os_path_join (data_directory self) f) st"
      using c by (rule ptf_cong)
    with True show ?thesis by (simp add: ih split: prod.splits sum.splits)
  qed
qed

lemma loop_acc:
  "training_loop e self names acc st = (Inr ds, st') \<longleftrightarrow>
   (\<exists>new. training_loop e self names [] st = (Inr new, st') \<and> ds = acc @ new)"
proof (induction names arbitrary: acc st ds)
  case Nil
  then show ?case by auto
next
  case (Cons f rest)
  show ?case
  proof (cases "endswith f (py ''.txt'')")
    case False
    with Cons.IH [of acc st ds] show ?thesis by simp
  next
    case True
    obtain r st1 where p: "process_text_file e self (os_path_join (data_directory self) f) st = (r, st1)"
      by (cases "process_text_file e self (os_path_join (data_directory self) f) st")
    show ?thesis
    proof (cases r)
      case (Inl err)
      with True p show ?thesis by simp
    next
      case (Inr d)
      have 1: "training_loop e self (f # rest) acc st = training_loop e self rest (acc @ [d]) st1"
        using True p Inr by simp
      have 2: "training_loop e self (f # rest) [] st = training_loop e self rest [d] st1"
        using True p Inr by simp
      have A: "training_loop e self rest (acc @ [d]) st1 = (Inr ds, st') \<longleftrightarrow>
          (\<exists>new. training_loop e self rest [] st1 = (Inr new, st') \<and> ds = acc @ d # new)"
        using Cons.IH [of "acc @ [d]" st1 ds] by simp
      have B: "\<forall>n. training_loop e self rest [d] st1 = (Inr n, st') \<longleftrightarrow>
          (\<exists>new. training_loop e self rest [] st1 = (Inr new, st') \<and> n = d # new)"
        using Cons.IH [of "[d]" st1] by simp
      from A B show ?thesis
        unfolding 1 2 by blast
    qed
  qed
qed

lemma loop_Cons_txt:
  assumes "endswith f (py ''.txt'')"
  shows "training_loop e self (f # rest) [] st = (Inr ds, st') \<longleftrightarrow>
   (\<exists>d st1 ds'. process_text_file e self (os_path_join (data_directory self) f) st = (Inr d, st1) \<and>
      training_loop e self rest [] st1 = (Inr ds', st') \<and> ds = d # ds')"
proof -
  obtain r st1 where p: "process_text_file e self (os_path_join (data_directory self) f) st = (r, st1)"
    by (cases "process_text_file e self (os_path_join (data_directory self) f) st")
  show ?thesis
  proof (cases r)
    case (Inl err)
    with assms p show ?thesis by simp
  next
    case (Inr d)
    with assms p have "training_loop e self (f # rest) [] st = training_loop e self rest [d] st1"
      by simp
    moreover have "training_loop e self rest [d] st1 = (Inr ds, st') \<longleftrightarrow>
        (\<exists>new. training_loop e self rest [] st1 = (Inr new, st') \<and> ds = d # new)"
      using loop_acc [of e self rest "[d]" st1 ds st'] by simp
    ultimately show ?thesis
      using p Inr by simp
  qed
qed

section \<open>The serialised text is printable ASCII\<close>

lemma hexdigit_printable: "d < 16 \<Longrightarrow> 0x20 \<le> hexdigit d \<and> hexdigit d \<le> 0x7E"
  by (simp add: hexdigit_def)

lemma hex4_printable: "x \<in> set (hex4 n) \<Longrightarrow> 0x20 \<le> x \<and> x \<le> 0x7E"
  using hexdigit_printable [of "n div 4096 mod 16"] hexdigit_printable [of "n div 256 mod 16"]
    hexdigit_printable [of "n div 16 mod 16"] hexdigit_printable [of "n mod 16"]
  by (auto simp: hex4_def)

lemma escape_char_printable: "x \<in> set (escape_char c) \<Longrightarrow> 0x20 \<le> x \<and> x \<le> 0x7E"
  by (auto simp: escape_char_def py_def Let_def dest: hex4_printable split: if_splits)

lemma encode_printable: "x \<in> set (encode_basestring_ascii s) \<Longrightarrow> 0x20 \<le> x \<and> x \<le> 0x7E"
  by (auto simp: encode_basestring_ascii_def dest: escape_char_printable)

lemma join_printable:
  "(\<forall>x\<in>set sep. P x) \<Longrightarrow> (\<forall>l\<in>set ls. \<forall>x\<in>set l. P x) \<Longrightarrow> \<forall>x\<in>set (join sep ls). P x"
  by (induction sep ls rule: join.induct) auto

lemma json_dumps_printable: "\<forall>x\<in>set (json_dumps v). 0x20 \<le> x \<and> x \<le> 0x7E"
proof (induction v)
  case (Str s)
  show ?case by (auto dest: encode_printable)
next
  case (List xs)
  have "\<forall>x\<in>set (join (py '', '') (map json_dumps xs)). 0x20 \<le> x \<and> x \<le> 0x7E"
    by (rule join_printable) (use List in \<open>auto simp: py_def\<close>)
  then show ?case by (auto simp: py_def)
next
  case (Dict kvs)
  have "\<forall>x\<in>set (join (py '', '') (map (\<lambda>(k, v). encode_basestring_ascii k @ py '': '' @ json_dumps v) kvs)).
          0x20 \<le> x \<and> x \<le> 0x7E"
  proof (rule join_printable)
    show "\<forall>x\<in>set (py '', ''). 0x20 \<le> x \<and> x \<le> 0x7E" by (simp add: py_def)
    show "\<forall>l\<in>set (map (\<lambda>(k, v). encode_basestring_ascii k @ py '': '' @ json_dumps v) kvs).
            \<forall>x\<in>set l. 0x20 \<le> x \<and> x \<le> 0x7E"
    proof (clarsimp)
      fix k v x
      assume kv: "(k, v) \<in> set kvs"
        and x: "x \<in> set (encode_basestring_ascii k) \<or> x \<in> set (py '': '') \<or> x \<in> set (json_dumps v)"
      from kv have "\<forall>x\<in>set (json_dumps v). 0x20 \<le> x \<and> x \<le> 0x7E"
        using Dict by (auto simp: snds.simps)
      with x show "32 \<le> x \<and> x \<le> 126"
        by (auto simp: py_def dest: encode_printable)
    qed
  qed
  then show ?case by (auto simp: py_def)
qed

lemma json_dumps_no_newline: "0x0A \<notin> set (json_dumps v)"
  using json_dumps_printable [of v] by auto

lemma lines_from_line:
  "0x0A \<notin> set l \<Longrightarrow> lines_from cur (l @ 0x0A # rest) = (cur @ l) # lines_from [] rest"
  by (induction l arbitrary: cur) auto

lemma write_entries_eq:
  "write_entries ds f = f @ concat (map (\<lambda>d. json_dumps d @ [0x0A]) ds)"
  by (induction ds arbitrary: f) auto

lemma lines_from_entries:
  "lines_from [] (concat (map (\<lambda>d. json_dumps d @ [0x0A]) ds)) = map json_dumps ds"
proof (induction ds)
  case Nil
  show ?case by simp
next
  case (Cons d ds)
  have "lines_from [] (json_dumps d @ 0x0A # concat (map (\<lambda>d. json_dumps d @ [0x0A]) ds)) =
        ([] @ json_dumps d) # lines_from [] (concat (map (\<lambda>d. json_dumps d @ [0x0A]) ds))"
    by (rule lines_from_line) (rule json_dumps_no_newline)
  with Cons show ?case by simp
qed

lemma file_lines_written: "file_lines (write_entries ds []) = map json_dumps ds"
  by (simp add: file_lines_def write_entries_eq lines_from_entries)

section \<open>The data set\<close>

lemma generate_Inr:
  "generate_training_data e self st = (Inr ds, st') \<longleftrightarrow>
   (\<exists>names. os_listdir e (data_directory self) = Inr names \<and>
      training_loop e self names [] st = (Inr ds, st'))"
  by (auto simp: generate_training_data_def split: sum.splits)

lemma loop_records:
  "training_loop e self names [] st = (Inr ds, st') \<Longrightarrow>
   list_all2 (\<lambda>f d. \<exists>R q. read_text e (os_path_join (data_directory self) f) = Inr R \<and>
                 d = training_record (persona self) q R)
     (filter (\<lambda>f. endswith f (py ''.txt'')) names) ds"
proof (induction names arbitrary: st ds)
  case Nil
  then show ?case by simp
next
  case (Cons f rest)
  show ?case
  proof (cases "endswith f (py ''.txt'')")
    case False
    with Cons show ?thesis by simp
  next
    case True
    from Cons.prems obtain d st1 ds' where
      p: "process_text_file e self (os_path_join (data_directory self) f) st = (Inr d, st1)"
      and l: "training_loop e self rest [] st1 = (Inr ds', st')" and ds: "ds = d # ds'"
      unfolding loop_Cons_txt [OF True] by blast
    from p obtain R q where "read_text e (os_path_join (data_directory self) f) = Inr R"
      "d = training_record (persona self) q R"
      unfolding ptf_Inr by blast
    with Cons.IH [OF l] True ds show ?thesis by auto
  qed
qed

lemma loop_formula:
  "training_loop e self names [] st = (Inr ds, st') \<Longrightarrow>
   \<exists>Rs replies.
     list_all2 (\<lambda>f R. read_text e (os_path_join (data_directory self) f) = Inr R)
       (filter (\<lambda>f. endswith f (py ''.txt'')) names) Rs \<and>
     length replies = length Rs \<and>
     (\<forall>i<length Rs. \<exists>response c cs.
        create e (requests st @ map query_request (take i Rs)) (query_request (Rs ! i)) = Inr response \<and>
        choices response = c # cs \<and> content (message c) = Some (replies ! i)) \<and>
     ds = map2 (\<lambda>R reply. training_record (persona self) (strip reply) R) Rs replies \<and>
     requests st' = requests st @ map query_request Rs"
proof (induction names arbitrary: st ds)
  case Nil
  then show ?case by simp
next
  case (Cons f rest)
  show ?case
  proof (cases "endswith f (py ''.txt'')")
    case False
    with Cons show ?thesis by simp
  next
    case True
    from Cons.prems obtain d st1 ds' where
      p: "process_text_file e self (os_path_join (data_directory self) f) st = (Inr d, st1)"
      and l: "training_loop e self rest [] st1 = (Inr ds', st')" and ds: "ds = d # ds'"
      unfolding loop_Cons_txt [OF True] by blast
    from p obtain R q where r: "read_text e (os_path_join (data_directory self) f) = Inr R"
      and g: "generate_simulated_query e R st = (Inr q, st1)"
      and d: "d = training_record (persona self) q R"
      unfolding ptf_Inr by blast
    from g obtain response c cs reply where
      c: "create e (requests st) (query_request R) = Inr response"
        "choices response = c # cs" "content (message c) = Some reply"
      and q: "q = strip reply"
      and st1: "st1 = st\<lparr>requests := requests st @ [query_request R]\<rparr>"
      unfolding gsq_Inr by blast
    from Cons.IH [OF l] obtain Rs replies where
      ih: "list_all2 (\<lambda>f R. read_text e (os_path_join (data_directory self) f) = Inr R)
            (filter (\<lambda>f. endswith f (py ''.txt'')) rest) Rs"
        "length replies = length Rs"
        "\<forall>i<length Rs. \<exists>response c cs.
          create e (requests st1 @ map query_request (take i Rs)) (query_request (Rs ! i)) = Inr response \<and>
          choices response = c # cs \<and> content (message c) = Some (replies ! i)"
        "ds' = map2 (\<lambda>R reply. training_record (persona self) (strip reply) R) Rs replies"
        "requests st' = requests st1 @ map query_request Rs"
      by blast
    have calls: "\<forall>i<length (R # Rs). \<exists>response c cs.
          create e (requests st @ map query_request (take i (R # Rs))) (query_request ((R # Rs) ! i)) = Inr response \<and>
          choices response = c # cs \<and> content (message c) = Some ((reply # replies) ! i)"
    proof (intro allI impI)
      fix i assume i: "i < length (R # Rs)"
      show "\<exists>response c cs.
          create e (requests st @ map query_request (take i (R # Rs))) (query_request ((R # Rs) ! i)) = Inr response \<and>
          choices response = c # cs \<and> content (message c) = Some ((reply # replies) ! i)"
      proof (cases i)
        case 0
        with c show ?thesis by simp
      next
        case (Suc j)
        with i have "j < length Rs" by simp
        with ih(3) Suc show ?thesis by (simp add: st1)
      qed
    qed
    show ?thesis
      apply (rule exI [of _ "R # Rs"])
      apply (rule exI [of _ "reply # replies"])
      using True r ih(1,2,4,5) calls ds d q
      apply (simp add: st1)
      done
  qed
qed

lemma main_Inr:
  "main e a st = (Inr (), st') \<longleftrightarrow>
   new_client e = None \<and>
   (\<exists>ds st1. generate_training_data e \<lparr>persona = persona_arg a, data_directory = data_dir a\<rparr> st = (Inr ds, st1) \<and>
      open_write e (output_file a) = None \<and>
      st' = st1\<lparr>files := (files st1)(output_file a \<mapsto> write_entries ds [])\<rparr>)"
  by (auto simp: main_def init_def split: sum.splits prod.splits option.splits)

section \<open>The example runs, evaluated\<close>

lemmas demo_defs = demo_env_def demo_args_def demo_self_def initial_state_def completion_def

lemmas run_defs = main_def init_def generate_training_data_def process_text_file_def read_text_def
  generate_simulated_query_def endswith_def startswith_def os_path_join_def py_def
  strip_def lstrip_def rstrip_def isspace_def

lemma demo_record_dumps:
  \<open>json_dumps (training_record (py ''You are Bob.'') (py ''What should I say?'') (py ''Hello world'')) =
   py ''{"messages": [{"role": "system", "content": "You are Bob."}, {"role": "user", "content": "What should I say?"}, {"role": "assistant", "content": "Hello world"}]}''\<close>
  by (simp add: training_record_def encode_basestring_ascii_def escape_char_def py_def)

lemma demo_main:
  "main demo_env demo_args initial_state =
     (Inr (),
      \<lparr>requests = [query_request (py ''Hello world'')],
       files = [py ''out.jsonl'' \<mapsto>
         json_dumps (training_record (py ''You are Bob.'') (py ''What should I say?'') (py ''Hello world'')) @ [0x0A]]\<rparr>)"
  by (simp add: demo_defs run_defs training_record_def del: json_dumps.simps)

lemma demo_read: "read_text demo_env (py ''data/a.txt'') = Inr (py ''Hello world'')"
  by (simp add: read_text_def demo_env_def py_def)

lemma demo_loop_subdir:
  "training_loop demo_env_subdir \<lparr>persona = py ''You are Bob.'', data_directory = py ''data''\<rparr>
     [py ''a.txt'', py ''b.md''] [] initial_state =
   (Inr [training_record (py ''You are Bob.'') (py ''What should I say?'') (py ''Hello world'')],
    \<lparr>requests = [query_request (py ''Hello world'')], files = Map.empty\<rparr>)"
  by (simp add: demo_env_subdir_def demo_defs run_defs training_record_def)

lemma demo_generate:
  "generate_training_data demo_env demo_self initial_state =
   (Inr [training_record (py ''You are Bob.'') (py ''What should I say?'') (py ''Hello world'')],
    \<lparr>requests = [query_request (py ''Hello world'')], files = Map.empty\<rparr>)"
  by (simp add: demo_defs run_defs training_record_def)

lemma demo_crlf_bytes:
  "read_bytes demo_env_crlf (py ''data/a.txt'') =
     Inr (''H'' @ [CHR 0xC3, CHR 0xA9] @ ''llo'' @ [CHR 0x0D, CHR 0x0A] @ ''world'')"
  by (simp add: demo_env_crlf_def demo_env_def py_def)

lemma demo_crlf_decode:
  "utf8_decode (map of_char (''H'' @ [CHR 0xC3, CHR 0xA9] @ ''llo'' @ [CHR 0x0D, CHR 0x0A] @ ''world'')) =
     Some (py ''H'' @ [0xE9] @ py ''llo'' @ [0x0D, 0x0A] @ py ''world'')"
  by (simp add: py_def continuation_def)

lemma demo_crlf_process:
  "process_text_file demo_env_crlf demo_self (py ''data/a.txt'') initial_state =
     (Inr (training_record (py ''You are Bob.'') (py ''What should I say?'')
             (py ''H'' @ [0xE9] @ py ''llo'' @ [0x0A] @ py ''world'')),
      \<lparr>requests = [query_request (py ''H'' @ [0xE9] @ py ''llo'' @ [0x0A] @ py ''world'')],
       files = Map.empty\<rparr>)"
  by (simp add: demo_env_crlf_def demo_defs run_defs training_record_def continuation_def)

section \<open>Reading back what \<open>json.dump\<close> wrote\<close>

lemma unhex_hexdigit: "d < 16 \<Longrightarrow> unhex (hexdigit d) = Some d"
  by (simp add: unhex_def hexdigit_def)

lemma hex_combine:
  "n = 16 * a + m0 \<Longrightarrow> a = 16 * b + m1 \<Longrightarrow> b = 16 * c + m2 \<Longrightarrow>
   ((c * 16 + m2) * 16 + m1) * 16 + m0 = (n::nat)"
  by simp

lemma hex_value:
  assumes "n < 0x10000"
  shows "((n div 4096 mod 16 * 16 + n div 256 mod 16) * 16 + n div 16 mod 16) * 16 + n mod 16 = (n::nat)"
proof -
  have d2: "n div 256 = n div 16 div 16" and d3: "n div 4096 = n div 256 div 16"
    by (simp_all add: div_mult2_eq [symmetric])
  have 1: "n = 16 * (n div 16) + n mod 16" by simp
  have 2: "n div 16 = 16 * (n div 256) + n div 16 mod 16" unfolding d2 by simp
  have 3: "n div 256 = 16 * (n div 4096) + n div 256 mod 16" unfolding d3 by simp
  from assms have "n div 4096 < 16" by simp
  then have 4: "n div 4096 mod 16 = n div 4096" by simp
  show ?thesis unfolding 4 using 1 2 3 by (rule hex_combine)
qed

lemma decode_hex4:
  assumes "n < 0x10000"
  shows "decode_uXXXX (hex4 n @ t) = Some n"
proof -
  have u: "\<And>d. unhex (hexdigit (d mod 16)) = Some (d mod 16)"
    by (rule unhex_hexdigit) simp
  show ?thesis
    unfolding decode_uXXXX_def hex4_def
    by (simp only: append_Cons append_Nil list.case u prod.case option.case hex_value [OF assms])
qed

lemma length_hex4: "length (hex4 n) = 4"
  by (simp add: hex4_def)

lemma scanstring_u:
  "n < 0x10000 \<Longrightarrow> \<not> high_surrogate n \<Longrightarrow>
   scanstring (0x5C # 0x75 # hex4 n @ t) = append_char n (scanstring t)"
  by (auto simp add: decode_hex4 length_hex4 high_surrogate_def)

lemma scanstring_u_alone:
  "high_surrogate n \<Longrightarrow> take 2 t \<noteq> [0x5C, 0x75] \<Longrightarrow>
   scanstring (0x5C # 0x75 # hex4 n @ t) = append_char n (scanstring t)"
  by (simp add: decode_hex4 length_hex4 high_surrogate_def)

lemma scanstring_u_not_low:
  "high_surrogate n \<Longrightarrow> m < 0x10000 \<Longrightarrow> \<not> low_surrogate m \<Longrightarrow>
   scanstring (0x5C # 0x75 # hex4 n @ 0x5C # 0x75 # hex4 m @ t) =
   append_char n (scanstring (0x5C # 0x75 # hex4 m @ t))"
  by (auto simp add: decode_hex4 length_hex4 high_surrogate_def low_surrogate_def
      simp del: scanstring.simps(2) simp add: scanstring.simps(2) [of "0x5C" "0x75 # hex4 n @ 0x5C # 0x75 # hex4 m @ t"])

lemma scanstring_u_pair:
  "high_surrogate n \<Longrightarrow> low_surrogate m \<Longrightarrow>
   scanstring (0x5C # 0x75 # hex4 n @ 0x5C # 0x75 # hex4 m @ t) =
   append_char (0x10000 + (n - 0xD800) * 1024 + (m - 0xDC00)) (scanstring t)"
  by (simp add: decode_hex4 length_hex4 high_surrogate_def low_surrogate_def)

lemma escape_high: "high_surrogate c \<Longrightarrow> escape_char c = 0x5C # 0x75 # hex4 c"
  by (simp add: escape_char_def high_surrogate_def py_def)

lemma escape_low: "low_surrogate c \<Longrightarrow> escape_char c = 0x5C # 0x75 # hex4 c"
  by (simp add: escape_char_def low_surrogate_def py_def)

lemma scan_escape_pair:
  "high_surrogate c \<Longrightarrow> low_surrogate d \<Longrightarrow>
   scanstring (escape_char c @ escape_char d @ t) =
   append_char (0x10000 + (c - 0xD800) * 1024 + (d - 0xDC00)) (scanstring t)"
  by (simp add: escape_high escape_low scanstring_u_pair del: scanstring.simps)

lemma pair_value:
  "0x10000 + (0xD800 + v div 1024 mod 1024 - 0xD800) * 1024 + (0xDC00 + v mod 1024 - 0xDC00) =
   0x10000 + v mod 0x100000" for v :: nat
proof -
  have "v mod (1024 * 1024) = 1024 * (v div 1024 mod 1024) + v mod 1024"
    by (rule mod_mult2_eq)
  then show ?thesis by simp
qed

lemma scan_escape:
  assumes "\<not> high_surrogate c"
  shows "scanstring (escape_char c @ t) = append_char (code_point c) (scanstring t)"
proof -
  consider (short) "c = 0x5C \<or> c = 0x22 \<or> c = 0x08 \<or> c = 0x0C \<or> c = 0x0A \<or> c = 0x0D \<or> c = 0x09"
    | (plain) "0x20 \<le> c" "c \<le> 0x7E" "c \<noteq> 0x5C" "c \<noteq> 0x22"
    | (bmp) "c < 0x20 \<or> 0x7E < c" "c < 0x10000" "c \<noteq> 0x08" "c \<noteq> 0x0C" "c \<noteq> 0x0A" "c \<noteq> 0x0D" "c \<noteq> 0x09"
    | (astral) "0x10000 \<le> c"
    by linarith
  then show ?thesis
  proof cases
    case short
    then show ?thesis
      by (auto simp: escape_char_def py_def code_point_def backslash_def)
  next
    case plain
    then have "escape_char c = [c]" by (simp add: escape_char_def)
    with plain show ?thesis
      by (simp add: code_point_def)
  next
    case bmp
    then have "escape_char c = 0x5C # 0x75 # hex4 c"
      by (auto simp: escape_char_def py_def)
    with bmp assms show ?thesis
      by (simp add: scanstring_u code_point_def del: scanstring.simps)
  next
    case astral
    let ?v = "c - 0x10000"
    let ?s1 = "0xD800 + ?v div 1024 mod 1024" and ?s2 = "0xDC00 + ?v mod 1024"
    from astral have e: "escape_char c = 0x5C # 0x75 # hex4 ?s1 @ 0x5C # 0x75 # hex4 ?s2"
      by (simp add: escape_char_def py_def Let_def)
    have "?v div 1024 mod 1024 < 1024" and "?v mod 1024 < 1024" by simp_all
    then have h: "high_surrogate ?s1" and l: "low_surrogate ?s2"
      by (simp_all add: high_surrogate_def low_surrogate_def)
    from astral have cp: "code_point c = 0x10000 + ?v mod 0x100000"
      by (simp add: code_point_def)
    show ?thesis
      unfolding e cp append_Cons append_assoc scanstring_u_pair [OF h l] pair_value ..
  qed
qed

lemma scan_escape_high:
  assumes "high_surrogate c"
    and "take 2 t \<noteq> [0x5C, 0x75] \<or>
         (\<exists>m t'. t = 0x5C # 0x75 # hex4 m @ t' \<and> m < 0x10000 \<and> \<not> low_surrogate m)"
  shows "scanstring (escape_char c @ t) = append_char c (scanstring t)"
  using assms(2)
proof
  assume "take 2 t \<noteq> [0x5C, 0x75]"
  with assms(1) show ?thesis
    by (simp add: escape_high scanstring_u_alone del: scanstring.simps)
next
  assume "\<exists>m t'. t = 0x5C # 0x75 # hex4 m @ t' \<and> m < 0x10000 \<and> \<not> low_surrogate m"
  then obtain m t' where "t = 0x5C # 0x75 # hex4 m @ t'" "m < 0x10000" "\<not> low_surrogate m"
    by blast
  with assms(1) show ?thesis
    by (simp add: escape_high scanstring_u_not_low del: scanstring.simps)
qed

lemma escape_starts:
  assumes "\<not> low_surrogate d"
  shows "take 2 (escape_char d @ t) \<noteq> [0x5C, 0x75] \<or>
         (\<exists>m t'. escape_char d @ t = 0x5C # 0x75 # hex4 m @ t' \<and> m < 0x10000 \<and> \<not> low_surrogate m)"
proof -
  consider (short) "d = 0x5C \<or> d = 0x22 \<or> d = 0x08 \<or> d = 0x0C \<or> d = 0x0A \<or> d = 0x0D \<or> d = 0x09"
    | (plain) "0x20 \<le> d" "d \<le> 0x7E" "d \<noteq> 0x5C" "d \<noteq> 0x22"
    | (bmp) "d < 0x20 \<or> 0x7E < d" "d < 0x10000" "d \<noteq> 0x08" "d \<noteq> 0x0C" "d \<noteq> 0x0A" "d \<noteq> 0x0D" "d \<noteq> 0x09"
    | (astral) "0x10000 \<le> d"
    by linarith
  then show ?thesis
  proof cases
    case short
    then show ?thesis by (elim disjE) (simp_all add: escape_char_def py_def)
  next
    case plain
    then show ?thesis by (simp add: escape_char_def)
  next
    case bmp
    then have "escape_char d = 0x5C # 0x75 # hex4 d"
      by (auto simp: escape_char_def py_def)
    with bmp assms show ?thesis
      by (intro disjI2 exI [of _ d] exI [of _ t]) simp
  next
    case astral
    let ?v = "d - 0x10000"
    let ?s1 = "0xD800 + ?v div 1024 mod 1024" and ?s2 = "0xDC00 + ?v mod 1024"
    from astral have e: "escape_char d @ t = 0x5C # 0x75 # hex4 ?s1 @ (0x5C # 0x75 # hex4 ?s2 @ t)"
      by (simp add: escape_char_def py_def Let_def)
    have "?v div 1024 mod 1024 < 1024" by simp
    then have "?s1 < 0x10000" and "\<not> low_surrogate ?s1"
      by (simp_all add: low_surrogate_def)
    with e show ?thesis by blast
  qed
qed

lemma scan_escaped:
  "scanstring (concat (map escape_char s) @ 0x22 # rest) = Some (decoded s, rest)"
proof (induction s rule: decoded.induct)
  case 1
  show ?case by simp
next
  case (2 c)
  show ?case
  proof (cases "high_surrogate c")
    case True
    then have "scanstring (escape_char c @ 0x22 # rest) = append_char c (scanstring (0x22 # rest))"
      by (rule scan_escape_high) simp
    moreover from True have "code_point c = c"
      by (simp add: code_point_def high_surrogate_def)
    ultimately show ?thesis
      by (simp add: append_char_def)
  next
    case False
    then have "scanstring (escape_char c @ 0x22 # rest) =
        append_char (code_point c) (scanstring (0x22 # rest))"
      by (rule scan_escape)
    then show ?thesis
      by (simp add: append_char_def)
  qed
next
  case (3 c d s)
  let ?t = "concat (map escape_char s) @ 0x22 # rest"
  show ?case
  proof (cases "high_surrogate c \<and> low_surrogate d")
    case True
    then have "scanstring (escape_char c @ escape_char d @ ?t) =
       append_char (0x10000 + (c - 0xD800) * 1024 + (d - 0xDC00)) (scanstring ?t)"
      by (simp add: scan_escape_pair del: scanstring.simps)
    with True 3 show ?thesis
      by (simp add: append_char_def del: scanstring.simps)
  next
    case False
    have "scanstring (escape_char c @ (escape_char d @ ?t)) =
       append_char (code_point c) (scanstring (escape_char d @ ?t))"
    proof (cases "high_surrogate c")
      case True
      with False have "\<not> low_surrogate d" by simp
      then have "scanstring (escape_char c @ (escape_char d @ ?t)) =
         append_char c (scanstring (escape_char d @ ?t))"
        by (intro scan_escape_high True escape_starts)
      moreover from True have "code_point c = c"
        by (simp add: code_point_def high_surrogate_def)
      ultimately show ?thesis by simp
    next
      case False
      then show ?thesis by (rule scan_escape)
    qed
    moreover from False have "decoded (c # d # s) = code_point c # decoded (d # s)"
      by auto
    ultimately show ?thesis
      using False 3 by (simp add: append_char_def del: scanstring.simps decoded.simps)
  qed
qed

lemma pair_split: fixes c d :: nat
  assumes "c < 1024" "d < 1024"
  shows "(c * 1024 + d) div 1024 mod 1024 = c" and "(c * 1024 + d) mod 1024 = d"
  using assms by simp_all

lemma escape_joined:
  assumes "high_surrogate c" and "low_surrogate d"
  shows "escape_char (0x10000 + (c - 0xD800) * 1024 + (d - 0xDC00)) = escape_char c @ escape_char d"
proof -
  let ?n = "(c - 0xD800) * 1024 + (d - 0xDC00)"
  from assms have b: "c - 0xD800 < 1024" "d - 0xDC00 < 1024"
    unfolding high_surrogate_def low_surrogate_def by linarith+
  have "escape_char (0x10000 + ?n) =
     0x5C # 0x75 # hex4 (0xD800 + ?n div 1024 mod 1024) @ 0x5C # 0x75 # hex4 (0xDC00 + ?n mod 1024)"
    by (simp add: escape_char_def py_def Let_def)
  also have "0xD800 + ?n div 1024 mod 1024 = c"
    unfolding pair_split(1) [OF b] using assms(1) by (simp add: high_surrogate_def)
  also have "0xDC00 + ?n mod 1024 = d"
    unfolding pair_split(2) [OF b] using assms(2) by (simp add: low_surrogate_def)
  finally show ?thesis
    using assms by (simp add: escape_high escape_low add.assoc)
qed

lemma escape_code_point: "escape_char (code_point c) = escape_char c"
proof (cases "c < 0x10000")
  case True
  then show ?thesis by (simp add: code_point_def)
next
  case False
  let ?v = "c - 0x10000"
  have 1: "?v mod 0x100000 div 1024 mod 1024 = ?v div 1024 mod 1024"
  proof -
    have "?v mod (1024 * 1024) = 1024 * (?v div 1024 mod 1024) + ?v mod 1024"
      by (rule mod_mult2_eq)
    then have "?v mod 0x100000 div 1024 = ?v div 1024 mod 1024" by simp
    then show ?thesis by simp
  qed
  have 2: "?v mod 0x100000 mod 1024 = ?v mod 1024"
    by (simp add: mod_mod_cancel)
  from False have "escape_char (code_point c) = escape_char (0x10000 + ?v mod 0x100000)"
    by (simp add: code_point_def)
  also have "\<dots> = 0x5C # 0x75 # hex4 (0xD800 + ?v div 1024 mod 1024) @ 0x5C # 0x75 # hex4 (0xDC00 + ?v mod 1024)"
    using 1 2 by (simp add: escape_char_def py_def Let_def)
  also from False have "\<dots> = escape_char c"
    by (simp add: escape_char_def py_def Let_def)
  finally show ?thesis .
qed

lemma escape_decoded: "concat (map escape_char (decoded s)) = concat (map escape_char s)"
  by (induction s rule: decoded.induct) (simp_all add: escape_code_point escape_joined)

lemma encode_decoded: "encode_basestring_ascii (decoded s) = encode_basestring_ascii s"
  by (simp add: encode_basestring_ascii_def escape_decoded)

lemma skip_nonws: "\<not> json_whitespace c \<Longrightarrow> skip_whitespace (c # t) = c # t"
  by (simp add: skip_whitespace_def)

lemma skip_space: "skip_whitespace (0x20 # t) = skip_whitespace t"
  by (simp add: skip_whitespace_def json_whitespace_def)

lemma dumps_head:
  "\<exists>c t. json_dumps v = c # t \<and> (c = 0x22 \<or> c = 0x5B \<or> c = 0x7B)"
  by (cases v) (simp_all add: encode_basestring_ascii_def py_def)

lemma skip_dumps: "skip_whitespace (json_dumps v @ t) = json_dumps v @ t"
proof -
  obtain c u where "json_dumps v = c # u" "c = 0x22 \<or> c = 0x5B \<or> c = 0x7B"
    using dumps_head by blast
  then show ?thesis
    by (auto simp: skip_whitespace_def json_whitespace_def)
qed

lemma dumps_nonempty: "0 < length (json_dumps v)"
  using dumps_head [of v] by auto

lemma scan_string:
  "scan_once (Suc n) (encode_basestring_ascii s @ rest) = Some (Str (decoded s), rest)"
  by (simp add: encode_basestring_ascii_def scan_escaped del: scanstring.simps)

lemma setitem_new: "k \<notin> fst ` set d \<Longrightarrow> setitem d k v = d @ [(k, v)]"
  by (induction d) auto

lemma foldl_setitem:
  "distinct (map fst (acc @ l)) \<Longrightarrow> foldl (\<lambda>d (k, v). setitem d k v) acc l = acc @ l"
proof (induction l arbitrary: acc)
  case Nil
  show ?case by simp
next
  case (Cons p l)
  obtain k v where p: "p = (k, v)" by (cases p)
  from Cons.prems p have "k \<notin> fst ` set acc" by auto
  then have "setitem acc k v = acc @ [(k, v)]" by (rule setitem_new)
  moreover from Cons.prems p have "distinct (map fst ((acc @ [(k, v)]) @ l))" by simp
  ultimately show ?case
    using Cons.IH [of "acc @ [(k, v)]"] p by simp
qed

lemma dict_distinct: "distinct (map fst l) \<Longrightarrow> dict l = l"
  using foldl_setitem [of "[]" l] by (simp add: dict_def)

lemma array_loop:
  assumes "\<And>x n rest. x \<in> set xs \<Longrightarrow> length (json_dumps x) \<le> n \<Longrightarrow>
             scan_once n (json_dumps x @ rest) = Some (decoded_val x, rest)"
    and "xs \<noteq> []"
    and "length (join (py '', '') (map json_dumps xs)) < n"
  shows "JSONArray n (join (py '', '') (map json_dumps xs) @ 0x5D # rest) vals =
         Some (List (vals @ map decoded_val xs), rest)"
  using assms
proof (induction xs arbitrary: n vals)
  case Nil
  then show ?case by simp
next
  case (Cons x xs)
  from Cons.prems(3) obtain m where n: "n = Suc m" by (cases n) auto
  have x: "\<And>k rest. length (json_dumps x) \<le> k \<Longrightarrow>
      scan_once k (json_dumps x @ rest) = Some (decoded_val x, rest)"
    using Cons.prems(1) by simp
  show ?case
  proof (cases xs)
    case Nil
    with Cons.prems(3) n have "length (json_dumps x) \<le> m" by simp
    then have "scan_once m (json_dumps x @ 0x5D # rest) = Some (decoded_val x, 0x5D # rest)"
      by (rule x)
    with Nil n show ?thesis
      by (simp add: skip_nonws json_whitespace_def)
  next
    case (Cons y ys)
    let ?tail = "join (py '', '') (map json_dumps (y # ys)) @ 0x5D # rest"
    from Cons Cons.prems(3) n have lx: "length (json_dumps x) \<le> m"
      and lt: "length (join (py '', '') (map json_dumps xs)) < m"
      using dumps_nonempty [of x] by (simp_all add: py_def)
    have "scan_once m (json_dumps x @ 0x2C # 0x20 # ?tail) = Some (decoded_val x, 0x2C # 0x20 # ?tail)"
      using lx by (rule x)
    moreover have "skip_whitespace ?tail = ?tail"
      using skip_dumps [of y] by (cases ys) (simp_all add: skip_dumps)
    moreover have "JSONArray m ?tail (vals @ [decoded_val x]) =
        Some (List ((vals @ [decoded_val x]) @ map decoded_val xs), rest)"
      unfolding Cons [symmetric]
      by (rule Cons.IH) (use Cons.prems(1) Cons lt in auto)
    ultimately show ?thesis
      using Cons n by (simp add: py_def skip_nonws skip_space json_whitespace_def)
  qed
qed

lemma object_loop:
  assumes "\<And>k v n rest. (k, v) \<in> set kvs \<Longrightarrow> length (json_dumps v) \<le> n \<Longrightarrow>
             scan_once n (json_dumps v @ rest) = Some (decoded_val v, rest)"
    and "kvs \<noteq> []"
    and "length (join (py '', '') (map (\<lambda>(k, v). encode_basestring_ascii k @ py '': '' @ json_dumps v) kvs)) \<le> n"
  shows "JSONObject n
           (tl (join (py '', '') (map (\<lambda>(k, v). encode_basestring_ascii k @ py '': '' @ json_dumps v) kvs)) @
            0x7D # rest) pairs =
         Some (Dict (dict (pairs @ map (\<lambda>(k, v). (decoded k, decoded_val v)) kvs)), rest)"
  using assms
proof (induction kvs arbitrary: n pairs)
  case Nil
  then show ?case by simp
next
  case (Cons p kvs)
  obtain k v where p: "p = (k, v)" by (cases p)
  let ?item = "\<lambda>(k, v). encode_basestring_ascii k @ py '': '' @ json_dumps v"
  have enc: "\<And>k. encode_basestring_ascii k = 0x22 # concat (map escape_char k) @ [0x22]"
    by (simp add: encode_basestring_ascii_def)
  have pos: "0 < n"
    using Cons.prems(3) p by (cases kvs) (simp_all add: enc)
  then obtain m where n: "n = Suc m" by (cases n) auto
  have v: "\<And>j rest. length (json_dumps v) \<le> j \<Longrightarrow>
      scan_once j (json_dumps v @ rest) = Some (decoded_val v, rest)"
    using Cons.prems(1) [of k v] p by simp
  show ?case
  proof (cases kvs)
    case Nil
    with Cons.prems(3) n p have "length (json_dumps v) \<le> m" by (simp add: enc py_def)
    then have "scan_once m (json_dumps v @ 0x7D # rest) = Some (decoded_val v, 0x7D # rest)"
      by (rule v)
    with Nil n p show ?thesis
      by (simp add: enc py_def scan_escaped skip_nonws skip_space skip_dumps json_whitespace_def
          del: scanstring.simps)
  next
    case (Cons q kvs')
    obtain k' v' where q: "q = (k', v')" by (cases q)
    let ?next = "join (py '', '') (map ?item kvs)"
    let ?tail = "tl ?next @ 0x7D # rest"
    have next_eq: "?next = 0x22 # tl ?next"
      using Cons q by (cases kvs') (simp_all add: enc)
    from Cons Cons.prems(3) n p have lv: "length (json_dumps v) \<le> m"
      and lt: "length ?next \<le> m"
      by (simp_all add: enc py_def)
    have "scan_once m (json_dumps v @ 0x2C # 0x20 # 0x22 # ?tail) =
        Some (decoded_val v, 0x2C # 0x20 # 0x22 # ?tail)"
      using lv by (rule v)
    moreover have "JSONObject m ?tail (pairs @ [(decoded k, decoded_val v)]) =
        Some (Dict (dict ((pairs @ [(decoded k, decoded_val v)]) @
           map (\<lambda>(k, v). (decoded k, decoded_val v)) kvs)), rest)"
      by (rule Cons.IH) (use Cons.prems(1) Cons lt in auto)
    moreover have "join (py '', '') (map ?item (p # kvs)) @ 0x7D # rest =
        0x22 # concat (map escape_char k) @ 0x22 # 0x3A # 0x20 # json_dumps v @ 0x2C # 0x20 # 0x22 # ?tail"
      using Cons p next_eq by (simp add: enc py_def)
    ultimately show ?thesis
      using n p by (simp add: scan_escaped skip_nonws skip_space skip_dumps json_whitespace_def
          del: scanstring.simps)
  qed
qed

lemma skip_head:
  "c = 0x22 \<or> c = 0x5B \<or> c = 0x7B \<Longrightarrow> skip_whitespace (c # t) = c # t"
  by (auto simp: skip_whitespace_def json_whitespace_def)

lemma scan_dumps:
  "distinct_keys v \<Longrightarrow> length (json_dumps v) \<le> n \<Longrightarrow>
   scan_once n (json_dumps v @ rest) = Some (decoded_val v, rest)"
proof (induction v arbitrary: n rest rule: json_dumps.induct)
  case (1 s)
  then obtain m where "n = Suc m"
    by (cases n) (auto simp: encode_basestring_ascii_def)
  then show ?case
    by (simp add: scan_string del: scan_once.simps)
next
  case (2 xs)
  let ?body = "join (py '', '') (map json_dumps xs)"
  from "2.prems"(2) obtain m where n: "n = Suc m" and m: "length ?body < m"
    by (cases n) (auto simp: py_def)
  show ?case
  proof (cases xs)
    case Nil
    with n show ?thesis
      by (simp add: py_def skip_nonws json_whitespace_def)
  next
    case (Cons x xs')
    obtain c t where ct: "json_dumps x = c # t" "c = 0x22 \<or> c = 0x5B \<or> c = 0x7B"
      using dumps_head by blast
    obtain u where body: "?body @ 0x5D # rest = c # u"
      using Cons ct by (cases xs') simp_all
    have elems: "\<And>x n rest. x \<in> set xs \<Longrightarrow> length (json_dumps x) \<le> n \<Longrightarrow>
             scan_once n (json_dumps x @ rest) = Some (decoded_val x, rest)"
      using "2.IH" "2.prems"(1) by (simp add: list_all_iff)
    have "JSONArray m (?body @ 0x5D # rest) [] = Some (List ([] @ map decoded_val xs), rest)"
      using elems by (rule array_loop) (use Cons m in simp_all)
    then have "JSONArray m (c # u) [] = Some (List (map decoded_val xs), rest)"
      unfolding body by simp
    moreover have "skip_whitespace (c # u) = c # u"
      using ct(2) by (rule skip_head)
    ultimately have "scan_once n (0x5B # c # u) = Some (decoded_val (List xs), rest)"
      unfolding n using ct(2) by auto
    then show ?thesis
      unfolding body [symmetric] by (simp add: py_def del: scan_once.simps)
  qed
next
  case (3 kvs)
  let ?item = "\<lambda>(k, v). encode_basestring_ascii k @ py '': '' @ json_dumps v"
  let ?body = "join (py '', '') (map ?item kvs)"
  from "3.prems"(2) obtain m where n: "n = Suc m" and m: "length ?body \<le> m"
    by (cases n) (auto simp: py_def)
  show ?case
  proof (cases kvs)
    case Nil
    with n show ?thesis
      by (simp add: py_def skip_nonws json_whitespace_def dict_def)
  next
    case (Cons p kvs')
    have body: "?body = 0x22 # tl ?body"
      using Cons by (cases p; cases kvs') (simp_all add: encode_basestring_ascii_def)
    have elems: "\<And>k v n rest. (k, v) \<in> set kvs \<Longrightarrow> length (json_dumps v) \<le> n \<Longrightarrow>
             scan_once n (json_dumps v @ rest) = Some (decoded_val v, rest)"
      using "3.IH" "3.prems"(1) by (fastforce simp: list_all_iff)
    have "JSONObject m (tl ?body @ 0x7D # rest) [] =
        Some (Dict (dict ([] @ map (\<lambda>(k, v). (decoded k, decoded_val v)) kvs)), rest)"
      using elems by (rule object_loop) (use Cons m in simp_all)
    moreover have "distinct (map fst (map (\<lambda>(k, v). (decoded k, decoded_val v)) kvs))"
      using "3.prems"(1) by (simp add: case_prod_unfold comp_def)
    then have "dict (map (\<lambda>(k, v). (decoded k, decoded_val v)) kvs) =
        map (\<lambda>(k, v). (decoded k, decoded_val v)) kvs"
      by (rule dict_distinct)
    ultimately have "scan_once n (0x7B # 0x22 # tl ?body @ 0x7D # rest) =
        Some (decoded_val (Dict kvs), rest)"
      unfolding n by (simp add: skip_head)
    moreover have "json_dumps (Dict kvs) @ rest = 0x7B # 0x22 # tl ?body @ 0x7D # rest"
      using body by (simp add: py_def)
    ultimately show ?thesis
      by (simp only:)
  qed
qed

lemma json_loads_dumps:
  "distinct_keys v \<Longrightarrow> json_loads (json_dumps v) = Some (decoded_val v)"
  using scan_dumps [of v "Suc (length (json_dumps v))" "[]"] skip_dumps [of v "[]"]
  by (simp add: json_loads_def skip_whitespace_def del: scan_once.simps)

lemma dumps_decoded_val: "json_dumps (decoded_val v) = json_dumps v"
proof (induction v rule: json_dumps.induct)
  case (1 s)
  show ?case by (simp add: encode_decoded)
next
  case (2 xs)
  then have "map (json_dumps \<circ> decoded_val) xs = map json_dumps xs" by simp
  then show ?case
    unfolding decoded_val.simps json_dumps.simps map_map by (simp only:)
next
  case (3 kvs)
  then have "map ((\<lambda>(k, v). encode_basestring_ascii k @ py '': '' @ json_dumps v) \<circ>
                  (\<lambda>(k, v). (decoded k, decoded_val v))) kvs =
             map (\<lambda>(k, v). encode_basestring_ascii k @ py '': '' @ json_dumps v) kvs"
    by (auto simp: encode_decoded)
  then show ?case
    unfolding decoded_val.simps json_dumps.simps map_map by (simp only:)
qed

lemma code_point_valid: "c < 0x110000 \<Longrightarrow> code_point c = c"
proof -
  assume "c < 0x110000"
  then have "c - 0x10000 < 0x100000" by simp
  then have "(c - 0x10000) mod 0x100000 = c - 0x10000" by (rule mod_less)
  then show ?thesis by (simp add: code_point_def)
qed

lemma decoded_scalar:
  "(\<forall>c\<in>set s. c < 0x110000 \<and> \<not> high_surrogate c) \<Longrightarrow> decoded s = s"
  by (induction s rule: decoded.induct) (simp_all add: code_point_valid)

lemma decoded_keys:
  "decoded (py ''messages'') = py ''messages''"
  "decoded (py ''role'') = py ''role''"
  "decoded (py ''content'') = py ''content''"
  "decoded (py ''system'') = py ''system''"
  "decoded (py ''user'') = py ''user''"
  "decoded (py ''assistant'') = py ''assistant''"
  by (rule decoded_scalar; simp add: py_def high_surrogate_def)+

lemma record_distinct_keys: "distinct_keys (training_record p q r)"
  by (simp add: training_record_def decoded_keys) (simp add: py_def)

lemma record_decoded:
  "decoded_val (training_record p q r) = training_record (decoded p) (decoded q) (decoded r)"
  by (simp add: training_record_def decoded_keys)

lemma record_round_trip:
  "json_loads (json_dumps (training_record p q r)) =
     Some (training_record (decoded p) (decoded q) (decoded r))"
  "json_dumps (training_record (decoded p) (decoded q) (decoded r)) =
     json_dumps (training_record p q r)"
  using json_loads_dumps [OF record_distinct_keys, of p q r]
    dumps_decoded_val [of "training_record p q r"]
  by (simp_all only: record_decoded)

section \<open>The claims\<close>

text \<open>
  Claim C1, as the code has it. When the service answers with a string that is empty or
  holds white space only, \<open>_generate_simulated_query\<close> returns the empty string and
  raises nothing: the request is sent, the query is \<open>""\<close>, and \<open>_process_text_file\<close>
  assembles the record of the file with an empty user message. The run is not aborted:
  the loop of \<open>generate_training_data\<close> appends this record and goes on with the names
  that remain, and when the rest of the run succeeds \<open>main\<close> returns without an error
  and the output file holds the line of this record. The code has no check on the
  stripped answer.
\<close>

theorem blank_reply_yields_empty_query:
  assumes "create e (requests st) (query_request R) = Inr response"
    and "choices response = c # cs"
    and "content (message c) = Some reply"
    and "\<forall>x\<in>set reply. isspace x"
  shows "generate_simulated_query e R st =
           (Inr [], st\<lparr>requests := requests st @ [query_request R]\<rparr>) \<and>
         (read_text e file_path = Inr R \<longrightarrow>
            fst (process_text_file e self file_path st) = Inr (training_record (persona self) [] R)) \<and>
         (\<forall>f rest acc.
            endswith f (py ''.txt'') \<longrightarrow>
            read_text e (os_path_join (data_directory self) f) = Inr R \<longrightarrow>
            training_loop e self (f # rest) acc st =
              training_loop e self rest (acc @ [training_record (persona self) [] R])
                (st\<lparr>requests := requests st @ [query_request R]\<rparr>)) \<and>
         (\<forall>a st0 xs f ys computed ds st2.
            self = \<lparr>persona = persona_arg a, data_directory = data_dir a\<rparr> \<longrightarrow>
            new_client e = None \<longrightarrow>
            os_listdir e (data_dir a) = Inr (xs @ f # ys) \<longrightarrow>
            endswith f (py ''.txt'') \<longrightarrow>
            read_text e (os_path_join (data_dir a) f) = Inr R \<longrightarrow>
            training_loop e self xs [] st0 = (Inr computed, st) \<longrightarrow>
            training_loop e self ys (computed @ [training_record (persona_arg a) [] R])
              (st\<lparr>requests := requests st @ [query_request R]\<rparr>) = (Inr ds, st2) \<longrightarrow>
            open_write e (output_file a) = None \<longrightarrow>
            main e a st0 =
              (Inr (), st2\<lparr>files := (files st2)(output_file a \<mapsto> write_entries ds [])\<rparr>) \<and>
            training_record (persona_arg a) [] R \<in> set ds \<and>
            json_dumps (training_record (persona_arg a) [] R) \<in> set (file_lines (write_entries ds [])))"
proof -
  let ?st' = "st\<lparr>requests := requests st @ [query_request R]\<rparr>"
  from assms(4) have "strip reply = []" by (rule strip_blank)
  then have g: "generate_simulated_query e R st = (Inr [], ?st')"
    unfolding gsq_Inr using assms by simp
  then have p: "process_text_file e self path st = (Inr (training_record (persona self) [] R), ?st')"
    if "read_text e path = Inr R" for path
    using that unfolding ptf_Inr by blast
  have l: "training_loop e self (f # rest) acc st =
        training_loop e self rest (acc @ [training_record (persona self) [] R]) ?st'"
    if "endswith f (py ''.txt'')" "read_text e (os_path_join (data_directory self) f) = Inr R"
    for f rest acc
    using that p by simp
  have m: "main e a st0 =
        (Inr (), st2\<lparr>files := (files st2)(output_file a \<mapsto> write_entries ds [])\<rparr>) \<and>
      training_record (persona_arg a) [] R \<in> set ds \<and>
      json_dumps (training_record (persona_arg a) [] R) \<in> set (file_lines (write_entries ds []))"
    if self: "self = \<lparr>persona = persona_arg a, data_directory = data_dir a\<rparr>"
      and "new_client e = None"
      and ls: "os_listdir e (data_dir a) = Inr (xs @ f # ys)"
      and "endswith f (py ''.txt'')"
      and "read_text e (os_path_join (data_dir a) f) = Inr R"
      and xs: "training_loop e self xs [] st0 = (Inr computed, st)"
      and ys: "training_loop e self ys (computed @ [training_record (persona_arg a) [] R]) ?st' = (Inr ds, st2)"
      and "open_write e (output_file a) = None"
    for a st0 xs f ys computed ds st2
  proof -
    from self have s: "persona self = persona_arg a" "data_directory self = data_dir a"
      by simp_all
    have "training_loop e self (f # ys) computed st =
        training_loop e self ys (computed @ [training_record (persona self) [] R]) ?st'"
      using that(4,5) s by (intro l) simp_all
    with xs ys s have "training_loop e self (xs @ f # ys) [] st0 = (Inr ds, st2)"
      unfolding loop_append by simp
    with ls s have "generate_training_data e self st0 = (Inr ds, st2)"
      by (simp add: generate_training_data_def)
    with that(2,8) self have 1: "main e a st0 =
        (Inr (), st2\<lparr>files := (files st2)(output_file a \<mapsto> write_entries ds [])\<rparr>)"
      by (simp add: main_def init_def)
    from ys obtain new where "ds = (computed @ [training_record (persona_arg a) [] R]) @ new"
      using loop_acc [of e self ys "computed @ [training_record (persona_arg a) [] R]" ?st' ds st2]
      by blast
    then have 2: "training_record (persona_arg a) [] R \<in> set ds" by simp
    then have 3: "json_dumps (training_record (persona_arg a) [] R) \<in> set (file_lines (write_entries ds []))"
      by (simp add: file_lines_written)
    from 1 2 3 show ?thesis by simp
  qed
  have c2: "read_text e file_path = Inr R \<longrightarrow>
      fst (process_text_file e self file_path st) = Inr (training_record (persona self) [] R)"
    using p [of file_path] by simp
  show ?thesis
    apply (rule conjI [OF g])
    apply (rule conjI [OF c2])
    apply (rule conjI)
     apply (intro allI impI)
     apply (erule (1) l)
    apply (intro allI impI)
    apply (rule m; assumption)
    done
qed

text \<open>
  The service of \<open>demo_env_blank\<close> answers \<open>" \n "\<close>; the run on it writes the record of
  \<open>a.txt\<close>.
\<close>

theorem blank_reply_yields_empty_query_witness:
  "generate_simulated_query demo_env_blank (py ''Hello world'') initial_state =
     (Inr [], initial_state\<lparr>requests := requests initial_state @ [query_request (py ''Hello world'')]\<rparr>) \<and>
   fst (process_text_file demo_env_blank demo_self (py ''data/a.txt'') initial_state) =
     Inr (training_record (persona demo_self) [] (py ''Hello world'')) \<and>
   main demo_env_blank demo_args initial_state =
     (Inr (),
      initial_state\<lparr>requests := requests initial_state @ [query_request (py ''Hello world'')]\<rparr>
        \<lparr>files := (files (initial_state\<lparr>requests := requests initial_state @ [query_request (py ''Hello world'')]\<rparr>))
           (output_file demo_args \<mapsto>
              write_entries [training_record (persona_arg demo_args) [] (py ''Hello world'')] [])\<rparr>) \<and>
   training_record (persona_arg demo_args) [] (py ''Hello world'') \<in>
     set [training_record (persona_arg demo_args) [] (py ''Hello world'')] \<and>
   json_dumps (training_record (persona_arg demo_args) [] (py ''Hello world'')) \<in>
     set (file_lines (write_entries [training_record (persona_arg demo_args) [] (py ''Hello world'')] []))"
proof -
  let ?st' = "initial_state\<lparr>requests := requests initial_state @ [query_request (py ''Hello world'')]\<rparr>"
  let ?rec = "training_record (persona_arg demo_args) [] (py ''Hello world'')"
  have h1: "create demo_env_blank (requests initial_state) (query_request (py ''Hello world'')) =
      Inr (completion [0x20, 0x0A, 0x20])"
    by (simp add: demo_env_blank_def demo_env_def)
  have h2: "choices (completion [0x20, 0x0A, 0x20]) = \<lparr>message = \<lparr>content = Some [0x20, 0x0A, 0x20]\<rparr>\<rparr> # []"
    by (simp add: completion_def)
  have h3: "content (message \<lparr>message = \<lparr>content = Some [0x20, 0x0A, 0x20]\<rparr>\<rparr>) = Some [0x20, 0x0A, 0x20]"
    by simp
  have h4: "\<forall>x\<in>set [0x20, 0x0A, 0x20]. isspace x"
    by (simp add: isspace_def)
  have r: "read_text demo_env_blank (py ''data/a.txt'') = Inr (py ''Hello world'')"
    by (simp add: read_text_def demo_env_blank_def demo_env_def py_def)
  have k1: "demo_self = \<lparr>persona = persona_arg demo_args, data_directory = data_dir demo_args\<rparr>"
    by (simp add: demo_self_def demo_args_def)
  have k2: "new_client demo_env_blank = None"
    by (simp add: demo_env_blank_def demo_env_def)
  have k3: "os_listdir demo_env_blank (data_dir demo_args) = Inr ([] @ py ''a.txt'' # [py ''b.md''])"
    by (simp add: demo_env_blank_def demo_env_def demo_args_def)
  have k4: "endswith (py ''a.txt'') (py ''.txt'')"
    by (simp add: endswith_def py_def)
  have k5: "read_text demo_env_blank (os_path_join (data_dir demo_args) (py ''a.txt'')) =
      Inr (py ''Hello world'')"
    by (simp add: demo_env_blank_def demo_defs run_defs)
  have k6: "training_loop demo_env_blank demo_self [] [] initial_state = (Inr [], initial_state)"
    by simp
  have k7: "training_loop demo_env_blank demo_self [py ''b.md''] ([] @ [?rec]) ?st' = (Inr [?rec], ?st')"
    by (simp add: endswith_def py_def)
  have k8: "open_write demo_env_blank (output_file demo_args) = None"
    by (simp add: demo_env_blank_def demo_env_def)
  note t = blank_reply_yields_empty_query [OF h1 h2 h3 h4, of "py ''data/a.txt''" demo_self]
  note run = t [THEN conjunct2, THEN conjunct2, THEN conjunct2, rule_format, OF k1 k2 k3 k4 k5 k6 k7 k8]
  from t r have 1: "generate_simulated_query demo_env_blank (py ''Hello world'') initial_state = (Inr [], ?st')"
    and 2: "fst (process_text_file demo_env_blank demo_self (py ''data/a.txt'') initial_state) =
     Inr (training_record (persona demo_self) [] (py ''Hello world''))"
    by blast+
  from 1 2 run show ?thesis
    by (intro conjI) blast+
qed

text \<open>
  Claim C1 as stated fails: with a service that answers \<open>" \n "\<close> the run succeeds and
  writes a record whose user message is empty.
\<close>

theorem blank_reply_does_not_fail:
  \<open>fst (generate_simulated_query demo_env_blank (py ''Hello world'') initial_state) = Inr [] \<and>
   fst (main demo_env_blank demo_args initial_state) = Inr () \<and>
   files (snd (main demo_env_blank demo_args initial_state)) (py ''out.jsonl'') =
     Some (py ''{"messages": [{"role": "system", "content": "You are Bob."}, {"role": "user", "content": ""}, {"role": "assistant", "content": "Hello world"}]}'' @ [0x0A])\<close>
  by (simp add: demo_env_blank_def demo_defs run_defs encode_basestring_ascii_def escape_char_def)

text \<open>
  Claim C2, as the code has it. For every persona and every file that
  \<open>_process_text_file\<close> turns into a record, the record is a dictionary with the one key
  \<open>messages\<close>, whose value is a list of exactly three messages with the roles system,
  user and assistant in this order; the content of the system message is the persona.
  The content of the assistant message is the text of the file as reading in text mode
  gives it: with \<open>R\<close> the UTF-8 decoding of the bytes of the file, it is \<open>R\<close> with the line
  ends translated. Nothing is trimmed: what comes before the first carriage return of
  \<open>R\<close> is kept as it is, and an \<open>R\<close> without a carriage return is the content, unchanged.
\<close>

theorem record_three_messages:
  assumes "read_bytes e file_path = Inr content_bytes"
    and "utf8_decode (map of_char content_bytes) = Some R"
    and "process_text_file e self file_path st = (Inr data_entry, st')"
  shows "(\<exists>q. data_entry =
     Dict [(py ''messages'', List [
        Dict [(py ''role'', Str (py ''system'')), (py ''content'', Str (persona self))],
        Dict [(py ''role'', Str (py ''user'')), (py ''content'', Str q)],
        Dict [(py ''role'', Str (py ''assistant'')), (py ''content'', Str (universal_newlines R))]])]) \<and>
     (0x0D \<notin> set R \<longrightarrow> universal_newlines R = R) \<and>
     (\<forall>l r. R = l @ r \<longrightarrow> 0x0D \<notin> set l \<longrightarrow> universal_newlines R = l @ universal_newlines r)"
proof -
  from assms(1,2) have "read_text e file_path = Inr (universal_newlines R)"
    by (simp add: read_text_def)
  with assms(3) have "\<exists>q. data_entry = training_record (persona self) q (universal_newlines R)"
    unfolding ptf_Inr by auto
  then show ?thesis
    by (auto simp: training_record_def newlines_id newlines_without_cr)
qed

text \<open>The record of the \<open>a.txt\<close> of \<open>demo_env_crlf\<close>.\<close>

theorem record_three_messages_witness:
  "(\<exists>q. training_record (py ''You are Bob.'') (py ''What should I say?'')
             (py ''H'' @ [0xE9] @ py ''llo'' @ [0x0A] @ py ''world'') =
     Dict [(py ''messages'', List [
        Dict [(py ''role'', Str (py ''system'')), (py ''content'', Str (persona demo_self))],
        Dict [(py ''role'', Str (py ''user'')), (py ''content'', Str q)],
        Dict [(py ''role'', Str (py ''assistant'')),
              (py ''content'', Str (universal_newlines (py ''H'' @ [0xE9] @ py ''llo'' @ [0x0D, 0x0A] @ py ''world'')))]])]) \<and>
   universal_newlines (py ''H'' @ [0xE9] @ py ''llo'' @ [0x0D, 0x0A] @ py ''world'') =
     (py ''H'' @ [0xE9] @ py ''llo'') @ universal_newlines ([0x0D, 0x0A] @ py ''world'')"
proof -
  have n: "0x0D \<notin> set (py ''H'' @ [0xE9] @ py ''llo'')"
    by (simp add: py_def)
  have a: "py ''H'' @ [0xE9] @ py ''llo'' @ [0x0D, 0x0A] @ py ''world'' =
      (py ''H'' @ [0xE9] @ py ''llo'') @ ([0x0D, 0x0A] @ py ''world'')"
    by simp
  from record_three_messages [OF demo_crlf_bytes demo_crlf_decode demo_crlf_process] n a show ?thesis
    by blast
qed

text \<open>
  Claim C2 as stated fails: the \<open>a.txt\<close> of \<open>demo_env_crlf\<close> holds a carriage return and
  a line feed, and the assistant message of its record holds the line feed only, so it
  is not the content of the file.
\<close>

theorem assistant_content_not_byte_for_byte:
  "read_bytes demo_env_crlf (py ''data/a.txt'') =
     Inr (''H'' @ [CHR 0xC3, CHR 0xA9] @ ''llo'' @ [CHR 0x0D, CHR 0x0A] @ ''world'') \<and>
   utf8_decode (map of_char (''H'' @ [CHR 0xC3, CHR 0xA9] @ ''llo'' @ [CHR 0x0D, CHR 0x0A] @ ''world'')) =
     Some (py ''H'' @ [0xE9] @ py ''llo'' @ [0x0D, 0x0A] @ py ''world'') \<and>
   fst (process_text_file demo_env_crlf demo_self (py ''data/a.txt'') initial_state) =
     Inr (training_record (py ''You are Bob.'') (py ''What should I say?'')
            (py ''H'' @ [0xE9] @ py ''llo'' @ [0x0A] @ py ''world'')) \<and>
   py ''H'' @ [0xE9] @ py ''llo'' @ [0x0A] @ py ''world'' \<noteq>
   py ''H'' @ [0xE9] @ py ''llo'' @ [0x0D, 0x0A] @ py ''world''"
  by (simp add: demo_crlf_bytes demo_crlf_process) (simp add: py_def continuation_def)

text \<open>
  Claim C3. When \<open>main\<close> returns without an error, the output file holds exactly one
  line per name of the directory listing that ends with \<open>.txt\<close>, and the lines are in
  the order of the listing: the line at each position is the serialised record of the
  \<open>.txt\<close> name at the same position, with that file's text as the assistant message.
  Each line is JSON: parsing it gives the record of that file, read back, which is the
  record itself when none of its strings holds a high surrogate.
\<close>

theorem one_line_per_txt_file:
  assumes "main e a st = (Inr (), st')"
    and "os_listdir e (data_dir a) = Inr names"
  shows "\<exists>text. files st' (output_file a) = Some text \<and>
     length (file_lines text) = length (filter (\<lambda>f. endswith f (py ''.txt'')) names) \<and>
     list_all2 (\<lambda>f line. \<exists>R q. read_text e (os_path_join (data_dir a) f) = Inr R \<and>
                   line = json_dumps (training_record (persona_arg a) q R) \<and>
                   json_loads line =
                     Some (training_record (decoded (persona_arg a)) (decoded q) (decoded R)) \<and>
                   ((\<forall>c\<in>set (persona_arg a @ q @ R). c < 0x110000 \<and> \<not> high_surrogate c) \<longrightarrow>
                      json_loads line = Some (training_record (persona_arg a) q R)))
       (filter (\<lambda>f. endswith f (py ''.txt'')) names) (file_lines text)"
proof -
  let ?self = "\<lparr>persona = persona_arg a, data_directory = data_dir a\<rparr>"
  let ?txt = "filter (\<lambda>f. endswith f (py ''.txt'')) names"
  from assms(1) obtain ds st1 where
    g: "generate_training_data e ?self st = (Inr ds, st1)"
    and st': "st' = st1\<lparr>files := (files st1)(output_file a \<mapsto> write_entries ds [])\<rparr>"
    unfolding main_Inr by blast
  from g assms(2) have "training_loop e ?self names [] st = (Inr ds, st1)"
    unfolding generate_Inr by simp
  then have r: "list_all2 (\<lambda>f d. \<exists>R q. read_text e (os_path_join (data_dir a) f) = Inr R \<and>
                 d = training_record (persona_arg a) q R) ?txt ds"
    using loop_records [of e ?self names st ds st1] by simp
  have line: "\<exists>R q. read_text e (os_path_join (data_dir a) f) = Inr R \<and>
                   json_dumps d = json_dumps (training_record (persona_arg a) q R) \<and>
                   json_loads (json_dumps d) =
                     Some (training_record (decoded (persona_arg a)) (decoded q) (decoded R)) \<and>
                   ((\<forall>c\<in>set (persona_arg a @ q @ R). c < 0x110000 \<and> \<not> high_surrogate c) \<longrightarrow>
                      json_loads (json_dumps d) = Some (training_record (persona_arg a) q R))"
    if "\<exists>R q. read_text e (os_path_join (data_dir a) f) = Inr R \<and>
                 d = training_record (persona_arg a) q R" for f d
  proof -
    from that obtain R q where R: "read_text e (os_path_join (data_dir a) f) = Inr R"
      and d: "d = training_record (persona_arg a) q R" by blast
    have 2: "json_loads (json_dumps d) =
        Some (training_record (decoded (persona_arg a)) (decoded q) (decoded R))"
      unfolding d by (rule record_round_trip)
    have 3: "json_loads (json_dumps d) = Some (training_record (persona_arg a) q R)"
      if "\<forall>c\<in>set (persona_arg a @ q @ R). c < 0x110000 \<and> \<not> high_surrogate c"
    proof -
      from that have "decoded (persona_arg a) = persona_arg a" "decoded q = q" "decoded R = R"
        by (simp_all add: decoded_scalar)
      with 2 show ?thesis by simp
    qed
    from R d 2 3 show ?thesis by blast
  qed
  from r have "list_all2 (\<lambda>f line. \<exists>R q. read_text e (os_path_join (data_dir a) f) = Inr R \<and>
                   line = json_dumps (training_record (persona_arg a) q R) \<and>
                   json_loads line =
                     Some (training_record (decoded (persona_arg a)) (decoded q) (decoded R)) \<and>
                   ((\<forall>c\<in>set (persona_arg a @ q @ R). c < 0x110000 \<and> \<not> high_surrogate c) \<longrightarrow>
                      json_loads line = Some (training_record (persona_arg a) q R)))
       ?txt (map json_dumps ds)"
    unfolding list_all2_map2 by (rule list_all2_mono) (rule line)
  moreover from r have "length (map json_dumps ds) = length ?txt"
    by (simp add: list_all2_lengthD)
  moreover have "files st' (output_file a) = Some (write_entries ds [])"
    by (simp add: st')
  ultimately show ?thesis
    by (simp add: file_lines_written)
qed

text \<open>The run on \<open>demo_env\<close>: one \<open>.txt\<close> file, one line, shown as it is written.\<close>

theorem one_line_per_txt_file_witness:
  \<open>main demo_env demo_args initial_state =
     (Inr (),
      \<lparr>requests = [query_request (py ''Hello world'')],
       files = [py ''out.jsonl'' \<mapsto>
         json_dumps (training_record (py ''You are Bob.'') (py ''What should I say?'') (py ''Hello world'')) @ [0x0A]]\<rparr>) \<and>
   os_listdir demo_env (data_dir demo_args) = Inr [py ''a.txt'', py ''b.md''] \<and>
   file_lines (json_dumps (training_record (py ''You are Bob.'') (py ''What should I say?'') (py ''Hello world'')) @ [0x0A]) =
     [py ''{"messages": [{"role": "system", "content": "You are Bob."}, {"role": "user", "content": "What should I say?"}, {"role": "assistant", "content": "Hello world"}]}''] \<and>
   (\<exists>text. files \<lparr>requests = [query_request (py ''Hello world'')],
       files = [py ''out.jsonl'' \<mapsto>
         json_dumps (training_record (py ''You are Bob.'') (py ''What should I say?'') (py ''Hello world'')) @ [0x0A]]\<rparr>
         (output_file demo_args) = Some text \<and>
     length (file_lines text) = length (filter (\<lambda>f. endswith f (py ''.txt'')) [py ''a.txt'', py ''b.md'']) \<and>
     list_all2 (\<lambda>f line. \<exists>R q. read_text demo_env (os_path_join (data_dir demo_args) f) = Inr R \<and>
                   line = json_dumps (training_record (persona_arg demo_args) q R) \<and>
                   json_loads line =
                     Some (training_record (decoded (persona_arg demo_args)) (decoded q) (decoded R)) \<and>
                   ((\<forall>c\<in>set (persona_arg demo_args @ q @ R). c < 0x110000 \<and> \<not> high_surrogate c) \<longrightarrow>
                      json_loads line = Some (training_record (persona_arg demo_args) q R)))
       (filter (\<lambda>f. endswith f (py ''.txt'')) [py ''a.txt'', py ''b.md'']) (file_lines text))\<close>
proof -
  have h: "os_listdir demo_env (data_dir demo_args) = Inr [py ''a.txt'', py ''b.md'']"
    by (simp add: demo_env_def demo_args_def)
  have l: \<open>file_lines (json_dumps (training_record (py ''You are Bob.'') (py ''What should I say?'') (py ''Hello world'')) @ [0x0A]) =
     [py ''{"messages": [{"role": "system", "content": "You are Bob."}, {"role": "user", "content": "What should I say?"}, {"role": "assistant", "content": "Hello world"}]}'']\<close>
    using file_lines_written [of "[training_record (py ''You are Bob.'') (py ''What should I say?'') (py ''Hello world'')]"]
    by (simp only: write_entries.simps append_Nil list.map demo_record_dumps)
  show ?thesis
    by (intro conjI demo_main h l one_line_per_txt_file [OF demo_main h])
qed

text \<open>
  Claim C4. When the files before \<open>f\<close> were processed (their records \<open>computed\<close>) and
  processing the \<open>.txt\<close> file \<open>f\<close> fails, by a read error or by an error of the service,
  \<open>main\<close> ends with that error and has written nothing: the files of the final state are
  those of the initial one, so no record computed so far reaches the output file.
\<close>

theorem failure_writes_nothing:
  assumes "new_client e = None"
    and "os_listdir e (data_dir a) = Inr (xs @ f # ys)"
    and "endswith f (py ''.txt'')"
    and "training_loop e \<lparr>persona = persona_arg a, data_directory = data_dir a\<rparr> xs [] st = (Inr computed, st1)"
    and "process_text_file e \<lparr>persona = persona_arg a, data_directory = data_dir a\<rparr>
           (os_path_join (data_dir a) f) st1 = (Inl err, st2)"
  shows "main e a st = (Inl err, st2) \<and> files st2 = files st"
proof -
  let ?self = "\<lparr>persona = persona_arg a, data_directory = data_dir a\<rparr>"
  have "training_loop e ?self (xs @ f # ys) [] st = (Inl err, st2)"
    unfolding loop_append using assms(3,4,5) by simp
  with assms(2) have g: "generate_training_data e ?self st = (Inl err, st2)"
    by (simp add: generate_training_data_def)
  with assms(1) have "main e a st = (Inl err, st2)"
    by (simp add: main_def init_def)
  moreover from g have "files st2 = files st"
    using loop_files [of e ?self "xs @ f # ys" "[]" st "Inl err" st2] assms(2)
    by (simp add: generate_training_data_def)
  ultimately show ?thesis by simp
qed

text \<open>
  In \<open>demo_env_subdir\<close> the record of \<open>a.txt\<close> has been computed when opening \<open>c.txt\<close>
  fails.
\<close>

theorem failure_writes_nothing_witness:
  "main demo_env_subdir demo_args initial_state =
     (Inl (OSError IsADirectoryError),
      \<lparr>requests = [query_request (py ''Hello world'')], files = Map.empty\<rparr>) \<and>
   files \<lparr>requests = [query_request (py ''Hello world'')], files = Map.empty\<rparr> = files initial_state"
proof -
  have h1: "new_client demo_env_subdir = None"
    by (simp add: demo_env_subdir_def demo_defs)
  have h2: "os_listdir demo_env_subdir (data_dir demo_args) =
      Inr ([py ''a.txt'', py ''b.md''] @ py ''c.txt'' # [py ''d.txt''])"
    by (simp add: demo_env_subdir_def demo_defs)
  have h3: "endswith (py ''c.txt'') (py ''.txt'')"
    by (simp add: endswith_def py_def)
  have h4: "training_loop demo_env_subdir
      \<lparr>persona = persona_arg demo_args, data_directory = data_dir demo_args\<rparr>
      [py ''a.txt'', py ''b.md''] [] initial_state =
    (Inr [training_record (py ''You are Bob.'') (py ''What should I say?'') (py ''Hello world'')],
     \<lparr>requests = [query_request (py ''Hello world'')], files = Map.empty\<rparr>)"
    using demo_loop_subdir by (simp add: demo_args_def)
  have h5: "process_text_file demo_env_subdir
      \<lparr>persona = persona_arg demo_args, data_directory = data_dir demo_args\<rparr>
      (os_path_join (data_dir demo_args) (py ''c.txt''))
      \<lparr>requests = [query_request (py ''Hello world'')], files = Map.empty\<rparr> =
    (Inl (OSError IsADirectoryError),
     \<lparr>requests = [query_request (py ''Hello world'')], files = Map.empty\<rparr>)"
    by (simp add: demo_env_subdir_def demo_defs run_defs)
  show ?thesis
    by (rule failure_writes_nothing [OF h1 h2 h3 h4 h5])
qed

text \<open>
  Claim C5. When the file is read and the service answers with the text \<open>reply\<close>, the
  user message of the record is \<open>strip reply\<close>. That is \<open>reply\<close> without its leading and
  trailing white space and nothing else changed: \<open>reply\<close> is \<open>strip reply\<close> between two
  runs of white space, and \<open>strip reply\<close>, unless empty, neither starts nor ends with
  white space.
\<close>

theorem user_content_is_stripped_reply:
  assumes "read_text e file_path = Inr R"
    and "create e (requests st) (query_request R) = Inr response"
    and "choices response = c # cs"
    and "content (message c) = Some reply"
  shows "fst (process_text_file e self file_path st) =
           Inr (training_record (persona self) (strip reply) R) \<and>
         (\<exists>l r. reply = l @ strip reply @ r \<and> (\<forall>x\<in>set l. isspace x) \<and> (\<forall>x\<in>set r. isspace x)) \<and>
         (strip reply = [] \<or> (\<not> isspace (hd (strip reply)) \<and> \<not> isspace (last (strip reply))))"
proof -
  have "generate_simulated_query e R st =
          (Inr (strip reply), st\<lparr>requests := requests st @ [query_request R]\<rparr>)"
    unfolding gsq_Inr using assms by simp
  then have "process_text_file e self file_path st =
          (Inr (training_record (persona self) (strip reply) R),
           st\<lparr>requests := requests st @ [query_request R]\<rparr>)"
    unfolding ptf_Inr using assms(1) by blast
  then show ?thesis
    using strip_decomp [of reply] strip_hd [of reply] strip_last [of reply] by auto
qed

text \<open>The answer \<open>" What should I say? "\<close> of \<open>demo_env\<close>.\<close>

theorem user_content_is_stripped_reply_witness:
  "strip (py '' What should I say? '') = py ''What should I say?'' \<and>
   fst (process_text_file demo_env demo_self (py ''data/a.txt'') initial_state) =
     Inr (training_record (persona demo_self) (strip (py '' What should I say? '')) (py ''Hello world'')) \<and>
   (\<exists>l r. py '' What should I say? '' = l @ strip (py '' What should I say? '') @ r \<and>
      (\<forall>x\<in>set l. isspace x) \<and> (\<forall>x\<in>set r. isspace x)) \<and>
   (strip (py '' What should I say? '') = [] \<or>
    (\<not> isspace (hd (strip (py '' What should I say? ''))) \<and>
     \<not> isspace (last (strip (py '' What should I say? '')))))"
proof -
  have h2: "create demo_env (requests initial_state) (query_request (py ''Hello world'')) =
      Inr (completion (py '' What should I say? ''))"
    by (simp add: demo_env_def)
  have h3: "choices (completion (py '' What should I say? '')) =
      \<lparr>message = \<lparr>content = Some (py '' What should I say? '')\<rparr>\<rparr> # []"
    by (simp add: completion_def)
  have h4: "content (message \<lparr>message = \<lparr>content = Some (py '' What should I say? '')\<rparr>\<rparr>) =
      Some (py '' What should I say? '')"
    by simp
  have s: "strip (py '' What should I say? '') = py ''What should I say?''"
    by (simp add: run_defs)
  from s user_content_is_stripped_reply [OF demo_read h2 h3 h4, of demo_self] show ?thesis
    by (intro conjI) blast+
qed

text \<open>
  Claim C6. The names of the listing that do not end with \<open>.txt\<close> contribute nothing:
  the run on a directory is the run on the same directory without these entries,
  whatever the files that are not \<open>.txt\<close> entries of the listing contain in either, and a
  successful run returns as many records as the listing has names ending with \<open>.txt\<close>.
  Only the names of the one listing of \<open>data_directory\<close> are tested.
\<close>

theorem non_txt_entries_ignored:
  assumes "os_listdir e (data_directory self) = Inr names"
    and "os_listdir e' (data_directory self) = Inr (filter (\<lambda>f. endswith f (py ''.txt'')) names)"
    and "create e' = create e"
    and "\<forall>f\<in>set names. endswith f (py ''.txt'') \<longrightarrow>
           read_text e' (os_path_join (data_directory self) f) =
           read_text e (os_path_join (data_directory self) f)"
  shows "generate_training_data e self st = generate_training_data e' self st \<and>
         (\<forall>ds st'. generate_training_data e self st = (Inr ds, st') \<longrightarrow>
            length ds = length (filter (\<lambda>f. endswith f (py ''.txt'')) names))"
proof -
  have "training_loop e' self (filter (\<lambda>f. endswith f (py ''.txt'')) names) [] st =
        training_loop e' self names [] st"
    by (rule loop_filter)
  also have "\<dots> = training_loop e self names [] st"
    using assms(3,4) by (rule loop_cong)
  finally have "generate_training_data e self st = generate_training_data e' self st"
    using assms(1,2) by (simp add: generate_training_data_def)
  moreover have "\<forall>ds st'. generate_training_data e self st = (Inr ds, st') \<longrightarrow>
            length ds = length (filter (\<lambda>f. endswith f (py ''.txt'')) names)"
    using assms(1) unfolding generate_Inr
    by (auto dest!: loop_records list_all2_lengthD)
  ultimately show ?thesis by simp
qed

text \<open>\<open>demo_env\<close> and the same directory without \<open>b.md\<close>.\<close>

theorem non_txt_entries_ignored_witness:
  "read_text demo_env (py ''data/b.md'') \<noteq> read_text demo_env_txt_only (py ''data/b.md'') \<and>
   generate_training_data demo_env demo_self initial_state =
   generate_training_data demo_env_txt_only demo_self initial_state \<and>
   (\<exists>ds st'. generate_training_data demo_env demo_self initial_state = (Inr ds, st') \<and>
      length ds = length (filter (\<lambda>f. endswith f (py ''.txt'')) [py ''a.txt'', py ''b.md'']))"
proof -
  have h1: "os_listdir demo_env (data_directory demo_self) = Inr [py ''a.txt'', py ''b.md'']"
    by (simp add: demo_env_txt_only_def demo_defs)
  have h2: "os_listdir demo_env_txt_only (data_directory demo_self) =
      Inr (filter (\<lambda>f. endswith f (py ''.txt'')) [py ''a.txt'', py ''b.md''])"
    by (simp add: demo_env_txt_only_def demo_defs endswith_def py_def)
  have h3: "create demo_env_txt_only = create demo_env"
    by (simp add: demo_env_txt_only_def demo_defs)
  have h4: "\<forall>f\<in>set [py ''a.txt'', py ''b.md'']. endswith f (py ''.txt'') \<longrightarrow>
      read_text demo_env_txt_only (os_path_join (data_directory demo_self) f) =
      read_text demo_env (os_path_join (data_directory demo_self) f)"
    by (simp add: demo_env_txt_only_def demo_defs run_defs)
  have d: "read_text demo_env (py ''data/b.md'') \<noteq> read_text demo_env_txt_only (py ''data/b.md'')"
    by (simp add: read_text_def demo_env_txt_only_def demo_defs py_def)
  from non_txt_entries_ignored [OF h1 h2 h3 h4, of initial_state] d demo_generate show ?thesis
    by blast
qed

text \<open>
  Claim C7. When listing the input directory fails, \<open>generate_training_data\<close> fails with
  that error of the file system and \<open>main\<close> fails, with that error or with the one of
  creating the client; the state is the initial one, so no request was sent to the
  service and no file was opened for writing.
\<close>

theorem missing_directory_fails_first:
  assumes "os_listdir e (data_dir a) = Inl err"
  shows "generate_training_data e \<lparr>persona = persona_arg a, data_directory = data_dir a\<rparr> st =
           (Inl (OSError err), st) \<and>
         (\<exists>err'. main e a st = (Inl err', st) \<and> (err' = OSError err \<or> new_client e = Some err'))"
  using assms by (auto simp: generate_training_data_def main_def init_def split: option.splits)

text \<open>\<open>demo_env\<close> has no directory \<open>missing\<close>.\<close>

theorem missing_directory_fails_first_witness:
  "os_listdir demo_env (data_dir (demo_args\<lparr>data_dir := py ''missing''\<rparr>)) = Inl FileNotFoundError \<and>
   generate_training_data demo_env
     \<lparr>persona = persona_arg (demo_args\<lparr>data_dir := py ''missing''\<rparr>),
      data_directory = data_dir (demo_args\<lparr>data_dir := py ''missing''\<rparr>)\<rparr> initial_state =
     (Inl (OSError FileNotFoundError), initial_state) \<and>
   (\<exists>err'. main demo_env (demo_args\<lparr>data_dir := py ''missing''\<rparr>) initial_state =
        (Inl err', initial_state) \<and>
      (err' = OSError FileNotFoundError \<or> new_client demo_env = Some err'))"
proof -
  have h: "os_listdir demo_env (data_dir (demo_args\<lparr>data_dir := py ''missing''\<rparr>)) = Inl FileNotFoundError"
    by (simp add: demo_defs py_def)
  from h missing_directory_fails_first [OF h, of initial_state] show ?thesis
    by (intro conjI) blast+
qed

text \<open>
  Claim C9. A name of the listing that ends with \<open>.txt\<close> and whose file cannot be read
  (a subdirectory, a file that is not UTF-8) is selected all the same: the run does not
  succeed, and when the entries before it are processed without an error the run ends
  with the read error of that entry, in the state reached before it.
\<close>

theorem unreadable_txt_aborts:
  assumes "os_listdir e (data_directory self) = Inr (xs @ f # ys)"
    and "endswith f (py ''.txt'')"
    and "read_text e (os_path_join (data_directory self) f) = Inl err"
  shows "(\<exists>err' st'. generate_training_data e self st = (Inl err', st')) \<and>
         (\<forall>computed st1. training_loop e self xs [] st = (Inr computed, st1) \<longrightarrow>
            generate_training_data e self st = (Inl err, st1))"
proof -
  have g: "generate_training_data e self st = training_loop e self (xs @ f # ys) [] st"
    using assms(1) by (simp add: generate_training_data_def)
  have step: "\<And>acc st1. training_loop e self (f # ys) acc st1 = (Inl err, st1)"
    using assms(2,3) by (simp add: ptf_read_error)
  have 2: "\<forall>computed st1. training_loop e self xs [] st = (Inr computed, st1) \<longrightarrow>
            generate_training_data e self st = (Inl err, st1)"
    unfolding g loop_append by (simp add: step del: training_loop.simps)
  have 1: "\<exists>err' st'. generate_training_data e self st = (Inl err', st')"
  proof (cases "training_loop e self xs [] st")
    case (Pair r st1)
    then show ?thesis
      unfolding g loop_append by (cases r) (simp_all add: step del: training_loop.simps)
  qed
  from 1 2 show ?thesis by simp
qed

text \<open>\<open>c.txt\<close> of \<open>demo_env_subdir\<close> is a directory.\<close>

theorem unreadable_txt_aborts_witness:
  "(\<exists>err' st'. generate_training_data demo_env_subdir demo_self initial_state = (Inl err', st')) \<and>
   generate_training_data demo_env_subdir demo_self initial_state =
     (Inl (OSError IsADirectoryError),
      \<lparr>requests = [query_request (py ''Hello world'')], files = Map.empty\<rparr>)"
proof -
  have h1: "os_listdir demo_env_subdir (data_directory demo_self) =
      Inr ([py ''a.txt'', py ''b.md''] @ py ''c.txt'' # [py ''d.txt''])"
    by (simp add: demo_env_subdir_def demo_defs)
  have h2: "endswith (py ''c.txt'') (py ''.txt'')"
    by (simp add: endswith_def py_def)
  have h3: "read_text demo_env_subdir (os_path_join (data_directory demo_self) (py ''c.txt'')) =
      Inl (OSError IsADirectoryError)"
    by (simp add: demo_env_subdir_def demo_defs run_defs)
  have l: "training_loop demo_env_subdir demo_self [py ''a.txt'', py ''b.md''] [] initial_state =
    (Inr [training_record (py ''You are Bob.'') (py ''What should I say?'') (py ''Hello world'')],
     \<lparr>requests = [query_request (py ''Hello world'')], files = Map.empty\<rparr>)"
    using demo_loop_subdir by (simp add: demo_self_def)
  from unreadable_txt_aborts [OF h1 h2 h3, of initial_state] l show ?thesis
    by blast
qed

text \<open>
  Claim C10. Two runs with the same arguments end the same way, with the same data set
  and the same output, when their environments agree on creating the client, on the
  listing of the input directory, on the text of every \<open>.txt\<close> entry of the listing, on
  the answers of the service and on opening the output file; nothing else of the
  environment is read. The data set of a successful run is given in closed form: with
  \<open>Rs\<close> the texts of the \<open>.txt\<close> entries in the order of the listing and \<open>replies\<close> the
  answers of the service to the requests made for them, one after the other, the record
  at each position is built from the persona, the text and the answer at that position
  and from nothing else.
\<close>

theorem build_deterministic:
  assumes "new_client e1 = new_client e2"
    and "os_listdir e1 (data_dir a) = os_listdir e2 (data_dir a)"
    and "\<forall>names. os_listdir e1 (data_dir a) = Inr names \<longrightarrow>
           (\<forall>f\<in>set names. endswith f (py ''.txt'') \<longrightarrow>
              read_text e1 (os_path_join (data_dir a) f) = read_text e2 (os_path_join (data_dir a) f))"
    and "create e1 = create e2"
    and "open_write e1 (output_file a) = open_write e2 (output_file a)"
  shows "generate_training_data e1 \<lparr>persona = persona_arg a, data_directory = data_dir a\<rparr> st =
         generate_training_data e2 \<lparr>persona = persona_arg a, data_directory = data_dir a\<rparr> st \<and>
         main e1 a st = main e2 a st \<and>
         (\<forall>names ds st'.
            os_listdir e1 (data_dir a) = Inr names \<longrightarrow>
            generate_training_data e1 \<lparr>persona = persona_arg a, data_directory = data_dir a\<rparr> st =
              (Inr ds, st') \<longrightarrow>
            (\<exists>Rs replies.
               list_all2 (\<lambda>f R. read_text e1 (os_path_join (data_dir a) f) = Inr R)
                 (filter (\<lambda>f. endswith f (py ''.txt'')) names) Rs \<and>
               length replies = length Rs \<and>
               (\<forall>i<length Rs. \<exists>response c cs.
                  create e1 (requests st @ map query_request (take i Rs)) (query_request (Rs ! i)) =
                    Inr response \<and>
                  choices response = c # cs \<and> content (message c) = Some (replies ! i)) \<and>
               ds = map2 (\<lambda>R reply. training_record (persona_arg a) (strip reply) R) Rs replies))"
proof -
  let ?self = "\<lparr>persona = persona_arg a, data_directory = data_dir a\<rparr>"
  have g: "generate_training_data e1 ?self st = generate_training_data e2 ?self st"
  proof (cases "os_listdir e1 (data_dir a)")
    case (Inl err)
    moreover from Inl assms(2) have "os_listdir e2 (data_dir a) = Inl err" by simp
    ultimately show ?thesis by (simp add: generate_training_data_def)
  next
    case (Inr names)
    with assms(3) have "\<forall>f\<in>set names. endswith f (py ''.txt'') \<longrightarrow>
              read_text e1 (os_path_join (data_directory ?self) f) =
              read_text e2 (os_path_join (data_directory ?self) f)"
      by simp
    with assms(4) have "training_loop e1 ?self names [] st = training_loop e2 ?self names [] st"
      by (rule loop_cong)
    moreover from Inr assms(2) have "os_listdir e2 (data_dir a) = Inr names" by simp
    ultimately show ?thesis using Inr by (simp add: generate_training_data_def)
  qed
  then have m: "main e1 a st = main e2 a st"
    using assms(1,5) by (simp add: main_def init_def split: option.splits prod.splits sum.splits)
  have f: "\<exists>Rs replies.
       list_all2 (\<lambda>f R. read_text e1 (os_path_join (data_dir a) f) = Inr R)
         (filter (\<lambda>f. endswith f (py ''.txt'')) names) Rs \<and>
       length replies = length Rs \<and>
       (\<forall>i<length Rs. \<exists>response c cs.
          create e1 (requests st @ map query_request (take i Rs)) (query_request (Rs ! i)) =
            Inr response \<and>
          choices response = c # cs \<and> content (message c) = Some (replies ! i)) \<and>
       ds = map2 (\<lambda>R reply. training_record (persona_arg a) (strip reply) R) Rs replies"
    if "os_listdir e1 (data_dir a) = Inr names"
      and "generate_training_data e1 ?self st = (Inr ds, st')" for names ds st'
  proof -
    from that have "training_loop e1 ?self names [] st = (Inr ds, st')"
      unfolding generate_Inr by simp
    from loop_formula [OF this] show ?thesis by auto
  qed
  from g m f show ?thesis by blast
qed

text \<open>\<open>demo_env\<close> and \<open>demo_env_other_md\<close> differ in \<open>b.md\<close> and in the files that do not exist.\<close>

theorem build_deterministic_witness:
  "read_text demo_env (py ''data/b.md'') \<noteq> read_text demo_env_other_md (py ''data/b.md'') \<and>
   generate_training_data demo_env
     \<lparr>persona = persona_arg demo_args, data_directory = data_dir demo_args\<rparr> initial_state =
   generate_training_data demo_env_other_md
     \<lparr>persona = persona_arg demo_args, data_directory = data_dir demo_args\<rparr> initial_state \<and>
   main demo_env demo_args initial_state = main demo_env_other_md demo_args initial_state \<and>
   (\<exists>Rs replies.
      list_all2 (\<lambda>f R. read_text demo_env (os_path_join (data_dir demo_args) f) = Inr R)
        (filter (\<lambda>f. endswith f (py ''.txt'')) [py ''a.txt'', py ''b.md'']) Rs \<and>
      length replies = length Rs \<and>
      (\<forall>i<length Rs. \<exists>response c cs.
         create demo_env (requests initial_state @ map query_request (take i Rs))
           (query_request (Rs ! i)) = Inr response \<and>
         choices response = c # cs \<and> content (message c) = Some (replies ! i)) \<and>
      [training_record (py ''You are Bob.'') (py ''What should I say?'') (py ''Hello world'')] =
        map2 (\<lambda>R reply. training_record (persona_arg demo_args) (strip reply) R) Rs replies)"
proof -
  have h1: "new_client demo_env = new_client demo_env_other_md"
    by (simp add: demo_env_other_md_def demo_defs)
  have h2: "os_listdir demo_env (data_dir demo_args) = os_listdir demo_env_other_md (data_dir demo_args)"
    by (simp add: demo_env_other_md_def demo_defs)
  have h3: "\<forall>names. os_listdir demo_env (data_dir demo_args) = Inr names \<longrightarrow>
           (\<forall>f\<in>set names. endswith f (py ''.txt'') \<longrightarrow>
              read_text demo_env (os_path_join (data_dir demo_args) f) =
              read_text demo_env_other_md (os_path_join (data_dir demo_args) f))"
    by (auto simp add: demo_env_other_md_def demo_defs run_defs)
  have h4: "create demo_env = create demo_env_other_md"
    by (simp add: demo_env_other_md_def demo_defs)
  have h5: "open_write demo_env (output_file demo_args) = open_write demo_env_other_md (output_file demo_args)"
    by (simp add: demo_env_other_md_def demo_defs)
  have d: "read_text demo_env (py ''data/b.md'') \<noteq> read_text demo_env_other_md (py ''data/b.md'')"
    by (simp add: read_text_def demo_env_other_md_def demo_defs py_def)
  have l: "os_listdir demo_env (data_dir demo_args) = Inr [py ''a.txt'', py ''b.md'']"
    by (simp add: demo_env_other_md_def demo_defs)
  have g: "generate_training_data demo_env
     \<lparr>persona = persona_arg demo_args, data_directory = data_dir demo_args\<rparr> initial_state =
     (Inr [training_record (py ''You are Bob.'') (py ''What should I say?'') (py ''Hello world'')],
      \<lparr>requests = [query_request (py ''Hello world'')], files = Map.empty\<rparr>)"
    using demo_generate by (simp add: demo_self_def demo_args_def)
  from d l g build_deterministic [OF h1 h2 h3 h4 h5, of initial_state] show ?thesis
    by (intro conjI) blast+
qed

text \<open>
  Claim C8. Every line of the output file of a successful run is the serialised record
  of a file: it parses as JSON to an object with the one key \<open>messages\<close>, whose value is
  an array of exactly three objects with the keys \<open>role\<close> and \<open>content\<close>, the roles being
  system, user and assistant; the contents are those of the record, read back. Writing
  the parsed object again gives the line itself, so parsing and serialising once more
  returns the same object with every role and content. When no string of the record
  holds a high surrogate, the parsed object is the record itself.
\<close>

theorem output_lines_round_trip:
  assumes "main e a st = (Inr (), st')"
    and "files st' (output_file a) = Some text"
    and "line \<in> set (file_lines text)"
  shows "\<exists>q R. line = json_dumps (training_record (persona_arg a) q R) \<and>
           json_loads line =
             Some (training_record (decoded (persona_arg a)) (decoded q) (decoded R)) \<and>
           json_dumps (training_record (decoded (persona_arg a)) (decoded q) (decoded R)) = line \<and>
           ((\<forall>c\<in>set (persona_arg a @ q @ R). c < 0x110000 \<and> \<not> high_surrogate c) \<longrightarrow>
              json_loads line = Some (training_record (persona_arg a) q R))"
proof -
  let ?self = "\<lparr>persona = persona_arg a, data_directory = data_dir a\<rparr>"
  from assms(1) obtain ds st1 where
    g: "generate_training_data e ?self st = (Inr ds, st1)"
    and st': "st' = st1\<lparr>files := (files st1)(output_file a \<mapsto> write_entries ds [])\<rparr>"
    unfolding main_Inr by blast
  from st' assms(2) have "text = write_entries ds []" by simp
  with assms(3) obtain d where d: "d \<in> set ds" and line: "line = json_dumps d"
    by (auto simp: file_lines_written)
  from g obtain names where "training_loop e ?self names [] st = (Inr ds, st1)"
    unfolding generate_Inr by blast
  then have "list_all2 (\<lambda>f d. \<exists>R q. read_text e (os_path_join (data_directory ?self) f) = Inr R \<and>
                 d = training_record (persona ?self) q R)
     (filter (\<lambda>f. endswith f (py ''.txt'')) names) ds"
    by (rule loop_records)
  with d obtain q R where "d = training_record (persona_arg a) q R"
    by (auto simp: list_all2_conv_all_nth in_set_conv_nth)
  with line have 1: "line = json_dumps (training_record (persona_arg a) q R)"
    by simp
  have 2: "json_loads line =
      Some (training_record (decoded (persona_arg a)) (decoded q) (decoded R))"
    and 3: "json_dumps (training_record (decoded (persona_arg a)) (decoded q) (decoded R)) = line"
    unfolding 1 by (rule record_round_trip)+
  have 4: "json_loads line = Some (training_record (persona_arg a) q R)"
    if "\<forall>c\<in>set (persona_arg a @ q @ R). c < 0x110000 \<and> \<not> high_surrogate c"
  proof -
    from that have "decoded (persona_arg a) = persona_arg a" "decoded q = q" "decoded R = R"
      by (simp_all add: decoded_scalar)
    with 2 show ?thesis by simp
  qed
  from 1 2 3 4 show ?thesis by blast
qed

text \<open>The line of the run on \<open>demo_env\<close>, and the object it parses to.\<close>

theorem output_lines_round_trip_witness:
  \<open>json_dumps (training_record (py ''You are Bob.'') (py ''What should I say?'') (py ''Hello world'')) =
     py ''{"messages": [{"role": "system", "content": "You are Bob."}, {"role": "user", "content": "What should I say?"}, {"role": "assistant", "content": "Hello world"}]}'' \<and>
   json_loads (json_dumps (training_record (py ''You are Bob.'') (py ''What should I say?'') (py ''Hello world''))) =
     Some (training_record (py ''You are Bob.'') (py ''What should I say?'') (py ''Hello world'')) \<and>
   (\<exists>q R. json_dumps (training_record (py ''You are Bob.'') (py ''What should I say?'') (py ''Hello world'')) =
            json_dumps (training_record (persona_arg demo_args) q R) \<and>
          json_loads (json_dumps (training_record (py ''You are Bob.'') (py ''What should I say?'') (py ''Hello world''))) =
            Some (training_record (decoded (persona_arg demo_args)) (decoded q) (decoded R)) \<and>
          json_dumps (training_record (decoded (persona_arg demo_args)) (decoded q) (decoded R)) =
            json_dumps (training_record (py ''You are Bob.'') (py ''What should I say?'') (py ''Hello world'')) \<and>
          ((\<forall>c\<in>set (persona_arg demo_args @ q @ R). c < 0x110000 \<and> \<not> high_surrogate c) \<longrightarrow>
             json_loads (json_dumps (training_record (py ''You are Bob.'') (py ''What should I say?'') (py ''Hello world''))) =
               Some (training_record (persona_arg demo_args) q R)))\<close>
proof -
  let ?rec = "training_record (py ''You are Bob.'') (py ''What should I say?'') (py ''Hello world'')"
  have h2: "files \<lparr>requests = [query_request (py ''Hello world'')],
       files = [py ''out.jsonl'' \<mapsto> json_dumps ?rec @ [0x0A]]\<rparr> (output_file demo_args) =
       Some (json_dumps ?rec @ [0x0A])"
    by (simp add: demo_args_def)
  have h3: "json_dumps ?rec \<in> set (file_lines (json_dumps ?rec @ [0x0A]))"
    using file_lines_written [of "[?rec]"] by simp
  have d: "decoded (py ''You are Bob.'') = py ''You are Bob.''"
    "decoded (py ''What should I say?'') = py ''What should I say?''"
    "decoded (py ''Hello world'') = py ''Hello world''"
    by (rule decoded_scalar; simp add: py_def high_surrogate_def)+
  have l: "json_loads (json_dumps ?rec) = Some ?rec"
    unfolding record_round_trip(1) d ..
  show ?thesis
    by (intro conjI demo_record_dumps l output_lines_round_trip [OF demo_main h2 h3])
qed

end
